theory Spec2Isabelle
  imports Main "HOL-Library.Word"
begin

section \<open>JavaScript values\<close>

text \<open>
  A JavaScript string is a sequence of UTF-16 code units. File contents and content
  hashes are modelled that way, because \<^verbatim>\<open>String.prototype.trim\<close> is defined on code
  units. Paths, URLs, header names and JSON keys are protocol strings and are modelled
  as HOL strings (one \<^typ>\<open>char\<close> per code unit, so code units below 256).
\<close>

type_synonym jsstring = "16 word list"

definition js :: "string \<Rightarrow> jsstring" where
  "js s = map (\<lambda>c. of_char c) s"

text \<open>
  ECMAScript \<^verbatim>\<open>WhiteSpace\<close> and \<^verbatim>\<open>LineTerminator\<close>: TAB, LF, VT, FF, CR, SP, NBSP,
  U+1680, U+2000..U+200A, LS, PS, U+202F, U+205F, U+3000 and the byte order mark.
\<close>

definition isWhiteSpace :: "16 word \<Rightarrow> bool" where
  "isWhiteSpace c \<longleftrightarrow>
     c \<in> {0x9, 0xA, 0xB, 0xC, 0xD, 0x20, 0xA0, 0x1680, 0x2028, 0x2029, 0x202F, 0x205F,
          0x3000, 0xFEFF}
     \<or> (0x2000 \<le> c \<and> c \<le> 0x200A)"

text \<open>\<^verbatim>\<open>s.trim()\<close>: white space is removed from both ends.\<close>

definition trim :: "jsstring \<Rightarrow> jsstring" where
  "trim s = rev (dropWhile isWhiteSpace (rev (dropWhile isWhiteSpace s)))"

text \<open>
  Exceptions. \<open>Error\<close>, \<open>TypeError\<close> and \<open>SyntaxError\<close> are the built-in classes with
  their message; \<open>DOMException\<close> carries a name and a message (what \<^verbatim>\<open>fetch\<close> rejects
  with when a request is aborted); \<open>SystemError\<close> is a Node file-system error with its
  errno code. A function that can throw returns \<open>js_exn + 'a\<close>, \<open>Inl\<close> the exception.
\<close>

datatype js_exn =
    Error string
  | TypeError string
  | SyntaxError string
  | DOMException string string
  | SystemError string

type_synonym 'a result = "js_exn + 'a"

text \<open>
  A parsed JSON value (what \<^verbatim>\<open>response.json()\<close> yields). Numbers are the integers the
  server counts with; an object is the list of its own properties in insertion order.
\<close>

datatype json =
    JNull
  | JBool bool
  | JNum int
  | JStr string
  | JArr "json list"
  | JObj "(string \<times> json) list"

text \<open>
  Reading a property \<^verbatim>\<open>v.k\<close> of a value that is not \<^verbatim>\<open>null\<close>: \<open>None\<close> is
  \<^verbatim>\<open>undefined\<close>. Only objects have properties of the names the program reads.
  Reading a property of \<^verbatim>\<open>null\<close> throws a TypeError.
\<close>

fun property :: "json \<Rightarrow> string \<Rightarrow> json option" where
  "property (JObj kvs) k = map_of kvs k"
| "property _ k = None"

definition get_property :: "json \<Rightarrow> string \<Rightarrow> (json option) result" where
  "get_property v k =
     (if v = JNull
      then Inl (TypeError (''Cannot read properties of null (reading '' @ k @ '')''))
      else Inr (property v k))"

text \<open>
  \<^verbatim>\<open>a === b\<close> on two values read from different properties of one parsed JSON
  document: primitives compare by value, \<^verbatim>\<open>undefined\<close> equals itself, and two objects
  or arrays are different references.
\<close>

fun strict_eq :: "json option \<Rightarrow> json option \<Rightarrow> bool" where
  "strict_eq None None = True"
| "strict_eq (Some JNull) (Some JNull) = True"
| "strict_eq (Some (JBool a)) (Some (JBool b)) = (a = b)"
| "strict_eq (Some (JNum a)) (Some (JNum b)) = (a = b)"
| "strict_eq (Some (JStr a)) (Some (JStr b)) = (a = b)"
| "strict_eq _ _ = False"

subsection \<open>JSON.stringify with an indentation of two spaces\<close>

definition hex_digit :: "nat \<Rightarrow> char" where
  "hex_digit n = ''0123456789abcdef'' ! (n mod 16)"

text \<open>\<^verbatim>\<open>QuoteJSONString\<close>: the short escapes, \<^verbatim>\<open>\u00xx\<close> for the other control codes.\<close>

definition quote_char :: "char \<Rightarrow> string" where
  "quote_char c =
     (if c = CHR 0x22 then [CHR 0x5C, CHR 0x22]
      else if c = CHR 0x5C then [CHR 0x5C, CHR 0x5C]
      else if c = CHR 0x08 then [CHR 0x5C, CHR ''b'']
      else if c = CHR 0x09 then [CHR 0x5C, CHR ''t'']
      else if c = CHR 0x0A then [CHR 0x5C, CHR ''n'']
      else if c = CHR 0x0C then [CHR 0x5C, CHR ''f'']
      else if c = CHR 0x0D then [CHR 0x5C, CHR ''r'']
      else if (of_char c :: nat) < 32
        then [CHR 0x5C, CHR ''u'', CHR ''0'', CHR ''0'',
              hex_digit (of_char c div 16), hex_digit (of_char c)]
      else [c])"

definition quote :: "string \<Rightarrow> string" where
  "quote s = [CHR 0x22] @ concat (map quote_char s) @ [CHR 0x22]"

fun show_nat :: "nat \<Rightarrow> string" where
  "show_nat n =
     (if n < 10 then [''0123456789'' ! n]
      else show_nat (n div 10) @ [''0123456789'' ! (n mod 10)])"

definition show_int :: "int \<Rightarrow> string" where
  "show_int i = (if i < 0 then ''-'' @ show_nat (nat (- i)) else show_nat (nat i))"

definition spaces :: "nat \<Rightarrow> string" where
  "spaces n = replicate n CHR '' ''"

definition join_lines :: "string list \<Rightarrow> string" where
  "join_lines xs = concat (case xs of [] \<Rightarrow> [] | y # ys \<Rightarrow> y # map (\<lambda>z. '','' @ [CHR 0x0A] @ z) ys)"

text \<open>
  \<^verbatim>\<open>SerializeJSONProperty\<close> with gap \<open>2\<close>; \<open>ind\<close> is the current indentation. An empty
  array is \<^verbatim>\<open>[]\<close> and an empty object \<^verbatim>\<open>{}\<close>; otherwise every element stands on a
  line of its own, one step deeper.
\<close>

fun serialize :: "nat \<Rightarrow> json \<Rightarrow> string" where
  "serialize ind JNull = ''null''"
| "serialize ind (JBool b) = (if b then ''true'' else ''false'')"
| "serialize ind (JNum i) = show_int i"
| "serialize ind (JStr s) = quote s"
| "serialize ind (JArr xs) =
     (if xs = [] then ''[]''
      else ''['' @ [CHR 0x0A]
           @ join_lines (map (\<lambda>x. spaces (ind + 2) @ serialize (ind + 2) x) xs)
           @ [CHR 0x0A] @ spaces ind @ '']'')"
| "serialize ind (JObj kvs) =
     (if kvs = [] then ''{}''
      else ''{'' @ [CHR 0x0A]
           @ join_lines (map (\<lambda>kv. spaces (ind + 2) @ quote (fst kv) @ '': ''
                                      @ serialize (ind + 2) (snd kv)) kvs)
           @ [CHR 0x0A] @ spaces ind @ ''}'')"

text \<open>
  \<^verbatim>\<open>JSON.stringify(v, null, 2)\<close>. For \<^verbatim>\<open>undefined\<close> the result is \<^verbatim>\<open>undefined\<close>, not a
  string.
\<close>

definition JSON_stringify_pretty :: "json option \<Rightarrow> string option" where
  "JSON_stringify_pretty v = map_option (serialize 0) v"

section \<open>Node's path module (POSIX)\<close>

definition sep :: char where
  "sep = CHR ''/''"

text \<open>\<^verbatim>\<open>s.split(c)\<close>: the pieces between the separators, empty pieces included.\<close>

fun split_on :: "char \<Rightarrow> string \<Rightarrow> string list" where
  "split_on c [] = [[]]"
| "split_on c (x # xs) =
     (if x = c then [] # split_on c xs
      else (case split_on c xs of [] \<Rightarrow> [[x]] | s # ss \<Rightarrow> (x # s) # ss))"

definition join_with :: "string \<Rightarrow> string list \<Rightarrow> string" where
  "join_with d xs = concat (case xs of [] \<Rightarrow> [] | y # ys \<Rightarrow> y # map (\<lambda>z. d @ z) ys)"

text \<open>
  \<^verbatim>\<open>normalizeString\<close>: empty and \<^verbatim>\<open>.\<close> segments are dropped, \<^verbatim>\<open>..\<close> removes the segment
  before it; above the start of a relative path (\<open>allowAboveRoot\<close>) it is kept. \<open>acc\<close>
  is the result so far, last segment first.
\<close>

fun normalizeString :: "bool \<Rightarrow> string list \<Rightarrow> string list \<Rightarrow> string list" where
  "normalizeString allowAboveRoot acc [] = rev acc"
| "normalizeString allowAboveRoot acc (s # ss) =
     (if s = [] \<or> s = ''.'' then normalizeString allowAboveRoot acc ss
      else if s = ''..'' then
        (case acc of
           t # ts \<Rightarrow>
             (if t = ''..'' then normalizeString allowAboveRoot (s # acc) ss
              else normalizeString allowAboveRoot ts ss)
         | [] \<Rightarrow>
             (if allowAboveRoot then normalizeString allowAboveRoot [s] ss
              else normalizeString allowAboveRoot [] ss))
      else normalizeString allowAboveRoot (s # acc) ss)"

definition path_normalize :: "string \<Rightarrow> string" where
  "path_normalize p =
     (if p = [] then ''.''
      else
        let isAbsolute = (hd p = sep);
            trailingSeparator = (last p = sep);
            q = join_with [sep] (normalizeString (\<not> isAbsolute) [] (split_on sep p))
        in if q = [] then (if isAbsolute then ''/'' else if trailingSeparator then ''./'' else ''.'')
           else (if isAbsolute then [sep] else []) @ q @ (if trailingSeparator then [sep] else []))"

text \<open>\<^verbatim>\<open>path.join(...args)\<close>: the non-empty arguments joined by the separator, normalised.\<close>

definition path_join :: "string list \<Rightarrow> string" where
  "path_join args =
     (let joined = filter (\<lambda>a. a \<noteq> []) args
      in if joined = [] then ''.'' else path_normalize (join_with [sep] joined))"

text \<open>\<^verbatim>\<open>path.basename(p)\<close>: trailing separators are ignored; what follows the last other one.\<close>

definition path_basename :: "string \<Rightarrow> string" where
  "path_basename p =
     rev (takeWhile (\<lambda>c. c \<noteq> sep) (dropWhile (\<lambda>c. c = sep) (rev p)))"

text \<open>
  \<^verbatim>\<open>path.resolve(...args)\<close> in the working directory \<open>cwd\<close>: the arguments are taken
  from the right until one is absolute, the working directory last.
\<close>

fun resolve_loop :: "string list \<Rightarrow> string \<Rightarrow> string \<times> bool" where
  "resolve_loop [] resolvedPath = (resolvedPath, False)"
| "resolve_loop (p # ps) resolvedPath =
     (if p = [] then resolve_loop ps resolvedPath
      else if hd p = sep then (p @ [sep] @ resolvedPath, True)
      else resolve_loop ps (p @ [sep] @ resolvedPath))"

definition path_resolve :: "string \<Rightarrow> string list \<Rightarrow> string" where
  "path_resolve cwd args =
     (case resolve_loop (rev args @ [cwd]) [] of
        (resolvedPath, resolvedAbsolute) \<Rightarrow>
          let q = join_with [sep] (normalizeString (\<not> resolvedAbsolute) [] (split_on sep resolvedPath))
          in if resolvedAbsolute then [sep] @ q else if q = [] then ''.'' else q)"

text \<open>\<^verbatim>\<open>s.toLowerCase()\<close> on the ASCII letters; other code units are left as they are.\<close>

definition lower_char :: "char \<Rightarrow> char" where
  "lower_char c =
     (case map_of (zip ''ABCDEFGHIJKLMNOPQRSTUVWXYZ'' ''abcdefghijklmnopqrstuvwxyz'') c of
        None \<Rightarrow> c
      | Some d \<Rightarrow> d)"

definition toLowerCase :: "string \<Rightarrow> string" where
  "toLowerCase s = map lower_char s"

section \<open>The file system\<close>

text \<open>
  The state of the file system: the working directory, the regular files with their
  text, the directories, and the calls made that change it, in order. A path names the
  file its resolution against the working directory gives (\<open>fs_key\<close>); links are not
  modelled. The errno codes are indicative.
\<close>

datatype fs_op =
    Mkdir string
  | CopyFile string string
  | WriteFile string jsstring

record filesystem =
  cwd :: string
  files :: "string \<rightharpoonup> jsstring"
  dirs :: "string set"
  oplog :: "fs_op list"

definition fs_key :: "filesystem \<Rightarrow> string \<Rightarrow> string" where
  "fs_key s p = path_resolve (cwd s) [p]"

definition parent_dir :: "string \<Rightarrow> string" where
  "parent_dir k =
     (let d = rev (dropWhile (\<lambda>c. c = sep) (dropWhile (\<lambda>c. c \<noteq> sep) (rev k)))
      in if d = [] then [sep] else d)"

fun inits :: "'a list \<Rightarrow> 'a list list" where
  "inits [] = [[]]"
| "inits (x # xs) = [] # map ((#) x) (inits xs)"

text \<open>
  The directories on the way to an absolute path \<open>k\<close>, the root first and \<open>k\<close> itself
  last.
\<close>

definition ancestors :: "string \<Rightarrow> string list" where
  "ancestors k =
     map (\<lambda>segs. [sep] @ join_with [sep] segs) (inits (filter (\<lambda>s. s \<noteq> []) (split_on sep k)))"

definition existsSync :: "string \<Rightarrow> filesystem \<Rightarrow> bool" where
  "existsSync p s = (files s (fs_key s p) \<noteq> None \<or> fs_key s p \<in> dirs s)"

definition readFileSync :: "string \<Rightarrow> filesystem \<Rightarrow> jsstring result" where
  "readFileSync p s =
     (case files s (fs_key s p) of
        None \<Rightarrow> Inl (SystemError (if fs_key s p \<in> dirs s then ''EISDIR'' else ''ENOENT''))
      | Some c \<Rightarrow> Inr c)"

text \<open>
  \<^verbatim>\<open>fs.mkdirSync(p, { recursive: true })\<close>: the directory and the missing ones above it
  are created; it fails when a regular file is in the way, at the path or above it.
\<close>

definition mkdirSync :: "string \<Rightarrow> filesystem \<Rightarrow> unit result \<times> filesystem" where
  "mkdirSync p s =
     (let k = fs_key s p; s1 = s\<lparr>oplog := oplog s @ [Mkdir p]\<rparr>
      in if list_ex (\<lambda>a. files s a \<noteq> None) (k # ancestors k)
         then (Inl (SystemError ''EEXIST''), s1)
         else (Inr (), s1\<lparr>dirs := dirs s \<union> set (k # ancestors k)\<rparr>))"

text \<open>
  \<^verbatim>\<open>fs.copyFileSync(src, dest)\<close>: \<open>dest\<close> is created or overwritten with the text of
  \<open>src\<close>; it fails when \<open>src\<close> is not a regular file, when \<open>dest\<close> is a directory and
  when the directory of \<open>dest\<close> does not exist. Copying a file onto itself changes
  nothing.
\<close>

definition copyFileSync :: "string \<Rightarrow> string \<Rightarrow> filesystem \<Rightarrow> unit result \<times> filesystem" where
  "copyFileSync src dest s =
     (let s1 = s\<lparr>oplog := oplog s @ [CopyFile src dest]\<rparr>
      in case files s (fs_key s src) of
           None \<Rightarrow> (Inl (SystemError ''ENOENT''), s1)
         | Some c \<Rightarrow>
             if fs_key s dest \<in> dirs s then (Inl (SystemError ''EISDIR''), s1)
             else if parent_dir (fs_key s dest) \<notin> dirs s then (Inl (SystemError ''ENOENT''), s1)
             else (Inr (), s1\<lparr>files := (files s)(fs_key s dest \<mapsto> c)\<rparr>))"

definition writeFileSync :: "string \<Rightarrow> jsstring \<Rightarrow> filesystem \<Rightarrow> unit result \<times> filesystem" where
  "writeFileSync p content s =
     (let s1 = s\<lparr>oplog := oplog s @ [WriteFile p content]\<rparr>
      in if fs_key s p \<in> dirs s then (Inl (SystemError ''EISDIR''), s1)
         else if parent_dir (fs_key s p) \<notin> dirs s then (Inl (SystemError ''ENOENT''), s1)
         else (Inr (), s1\<lparr>files := (files s)(fs_key s p \<mapsto> content)\<rparr>))"

text \<open>
  \<^verbatim>\<open>xs.forEach(f)\<close> where \<open>f\<close> changes a state and may throw: the first exception ends
  the loop, and what was done before it stays done.
\<close>

fun forEach :: "('a \<Rightarrow> 's \<Rightarrow> unit result \<times> 's) \<Rightarrow> 'a list \<Rightarrow> 's \<Rightarrow> unit result \<times> 's" where
  "forEach f [] s = (Inr (), s)"
| "forEach f (x # xs) s =
     (case f x s of
        (Inl e, s1) \<Rightarrow> (Inl e, s1)
      | (Inr u, s1) \<Rightarrow> forEach f xs s1)"

section \<open>Locales and the copy into the locale directories\<close>

text \<open>
  Modelled from the spec: the types \<^verbatim>\<open>BlendinConfig\<close> and \<^verbatim>\<open>BlendinLocaleCode\<close>
  and the table \<^verbatim>\<open>DEFAULT_FLAGS\<close> of the package \<^verbatim>\<open>@blendin/types\<close> are not among the
  sources. A locale code is a string; the configuration has the fields the program
  reads, each optional as the program reads it (\<^verbatim>\<open>?.\<close>); the table is a parameter
  \<open>flags\<close> of the functions that look it up, \<open>None\<close> where it has no entry
  (\<^verbatim>\<open>undefined\<close>). A list of locale codes may hold \<^verbatim>\<open>undefined\<close> for that reason.
\<close>

type_synonym BlendinLocaleCode = "string option"

record Project =
  projectId :: "string option"
  apiToken :: "string option"

record Parsing =
  sourceFilePaths :: "string list option"
  translationsSavePath :: "string option"

record Locales =
  sourceLocale :: "string option"
  defaultLocale :: "string option"
  targetLocales :: "BlendinLocaleCode list option"

record BlendinConfig =
  project :: "Project option"
  parsing :: "Parsing option"
  locales :: "Locales option"



record SourceFilePathAndPluginName =
  pluginName :: string
  sourceFilePath :: string

text \<open>\<^verbatim>\<open>String(locale)\<close>.\<close>

definition String :: "BlendinLocaleCode \<Rightarrow> string" where
  "String locale = (case locale of None \<Rightarrow> ''undefined'' | Some c \<Rightarrow> c)"

definition destinationDir :: "BlendinLocaleCode \<Rightarrow> SourceFilePathAndPluginName \<Rightarrow> string" where
  "destinationDir locale file =
     path_join [''i18n'', toLowerCase (String locale), pluginName file, ''current'']"

definition destinationPath :: "BlendinLocaleCode \<Rightarrow> SourceFilePathAndPluginName \<Rightarrow> string" where
  "destinationPath locale file =
     path_join [destinationDir locale file, path_basename (sourceFilePath file)]"

text \<open>
  The body of the inner loop: one file into one locale. (\<^verbatim>\<open>isBlogFile\<close> and
  \<^verbatim>\<open>isPageFile\<close> are computed there and not used.)
\<close>

definition copySourceFile ::
  "BlendinLocaleCode \<Rightarrow> SourceFilePathAndPluginName \<Rightarrow> filesystem \<Rightarrow> unit result \<times> filesystem" where
  "copySourceFile locale file s =
     (case mkdirSync (destinationDir locale file) s of
        (Inl e, s1) \<Rightarrow> (Inl e, s1)
      | (Inr u, s1) \<Rightarrow> copyFileSync (sourceFilePath file) (destinationPath locale file) s1)"

definition copySourceFilesToLocales ::
  "(string \<Rightarrow> BlendinLocaleCode) \<Rightarrow> SourceFilePathAndPluginName list \<Rightarrow> BlendinLocaleCode list
     \<Rightarrow> string \<Rightarrow> filesystem \<Rightarrow> unit result \<times> filesystem" where
  "copySourceFilesToLocales flags source_files target_locales default_locale s =
     forEach
       (\<lambda>locale s1.
          if locale = flags default_locale then (Inr (), s1)
          else forEach (\<lambda>file. copySourceFile locale file) source_files s1)
       target_locales s"

section \<open>The API client\<close>

text \<open>
  \<^verbatim>\<open>BLENDIN_CLI_API_URL\<close>: the environment variable of that name, or the production
  endpoint when it is not set.
\<close>

definition BLENDIN_CLI_API_URL :: "string option \<Rightarrow> string" where
  "BLENDIN_CLI_API_URL env =
     (case env of
        None \<Rightarrow> ''https://blendinapi-production-959c8e72f5be.herokuapp.com''
      | Some u \<Rightarrow> u)"

text \<open>
  \<^verbatim>\<open>RequestInit\<close> (the method, the headers as a plain object, the body) and the request
  that reaches \<^verbatim>\<open>fetch\<close>: its URL and options. A body is a string the caller gave, or
  \<^verbatim>\<open>JSON.stringify(data)\<close> of the data posted, kept as the data.
\<close>

record RequestInit =
  init_method :: "string option"
  init_headers :: "string \<rightharpoonup> string"
  init_body :: "string option"

datatype 'b body = Raw string | Stringified 'b

record 'b request =
  req_url :: string
  req_method :: "string option"
  req_headers :: "string \<rightharpoonup> string"
  req_body :: "'b body option"

text \<open>
  The \<^verbatim>\<open>Response\<close> of \<^verbatim>\<open>fetch\<close>, with what \<^verbatim>\<open>response.json()\<close> gives: the parsed
  body, or the SyntaxError of a body that is not JSON.
\<close>

record response =
  resp_status :: nat
  resp_statusText :: string
  resp_headers :: "string \<rightharpoonup> string"
  resp_json :: "json result"

record FetchResponse =
  data :: json
  status :: nat
  statusText :: string
  headers :: "string \<rightharpoonup> string"

text \<open>
  What the transport does with one request: it responds or fails after so many
  milliseconds, or never settles. The network is the transport (what it does with the
  \<open>i\<close>-th request it is handed) and the requests handed to it so far.
\<close>

datatype fetch_outcome =
    Responds nat response
  | Fails nat js_exn
  | Hangs

record 'b net =
  transport :: "nat \<Rightarrow> 'b request \<Rightarrow> fetch_outcome"
  calls :: "'b request list"

definition timeout :: nat where
  "timeout = 30000"

text \<open>
  The promise of \<^verbatim>\<open>fetchWithTimeout\<close> settles once: with the transport's outcome when
  that comes before the timer, with the timer's error otherwise (also when both are due
  in the same millisecond: the event loop runs expired timers first).
\<close>

fun timed :: "fetch_outcome \<Rightarrow> nat \<Rightarrow> response result" where
  "timed (Responds t res) ms = (if t < ms then Inr res else Inl (Error ''Request timed out''))"
| "timed (Fails t err) ms = (if t < ms then Inl err else Inl (Error ''Request timed out''))"
| "timed Hangs ms = Inl (Error ''Request timed out'')"

definition fetchWithTimeout :: "'b request \<Rightarrow> nat \<Rightarrow> 'b net \<Rightarrow> response result \<times> 'b net" where
  "fetchWithTimeout req ms n =
     (timed (transport n (length (calls n)) req) ms, n\<lparr>calls := calls n @ [req]\<rparr>)"

text \<open>\<^verbatim>\<open>APIClientConfig\<close> is its one optional field, the token.\<close>

type_synonym APIClientConfig = "string option"

text \<open>\<^verbatim>\<open>apiClientConfig?.apiToken ?? ''\<close>\<close>

definition client_token :: "APIClientConfig option \<Rightarrow> string" where
  "client_token apiClientConfig =
     (case apiClientConfig of
        None \<Rightarrow> []
      | Some c \<Rightarrow> (case c of None \<Rightarrow> [] | Some t \<Rightarrow> t))"

definition config_headers :: "RequestInit option \<Rightarrow> (string \<rightharpoonup> string)" where
  "config_headers config = (case config of None \<Rightarrow> Map.empty | Some c \<Rightarrow> init_headers c)"

text \<open>The options \<^verbatim>\<open>authenticatedGet\<close> hands to \<^verbatim>\<open>fetchWithTimeout\<close>.\<close>

definition get_request :: "string \<Rightarrow> string \<Rightarrow> string \<Rightarrow> RequestInit option \<Rightarrow> 'b request" where
  "get_request baseURL token url config =
     \<lparr>req_url = baseURL @ url,
      req_method = (case config of None \<Rightarrow> None | Some c \<Rightarrow> init_method c),
      req_headers = (config_headers config)
        (''Content-Type'' \<mapsto> ''application/json'', ''X-API-Token'' \<mapsto> token),
      req_body = (case config of None \<Rightarrow> None | Some c \<Rightarrow> map_option Raw (init_body c))\<rparr>"

text \<open>
  The options of \<^verbatim>\<open>authenticatedPost\<close>: \<^verbatim>\<open>method: 'POST'\<close> stands before the spread of
  \<open>config\<close>, the headers and the body after it.
\<close>

definition post_request ::
  "string \<Rightarrow> string \<Rightarrow> string \<Rightarrow> 'b option \<Rightarrow> RequestInit option \<Rightarrow> 'b request" where
  "post_request baseURL token url dat config =
     \<lparr>req_url = baseURL @ url,
      req_method =
        (case config of
           None \<Rightarrow> Some ''POST''
         | Some c \<Rightarrow> (case init_method c of None \<Rightarrow> Some ''POST'' | Some m \<Rightarrow> Some m)),
      req_headers = (config_headers config)
        (''Content-Type'' \<mapsto> ''application/json'', ''X-API-Token'' \<mapsto> token),
      req_body = map_option Stringified dat\<rparr>"

text \<open>\<^verbatim>\<open>await response.json()\<close> and the object returned.\<close>

definition fetchResponse :: "response \<Rightarrow> FetchResponse result" where
  "fetchResponse res =
     (case resp_json res of
        Inl e \<Rightarrow> Inl e
      | Inr d \<Rightarrow>
          Inr \<lparr>data = d, status = resp_status res, statusText = resp_statusText res,
               headers = resp_headers res\<rparr>)"

definition unauthorized :: FetchResponse where
  "unauthorized =
     \<lparr>data = JObj [], status = 401, statusText = ''Unauthorized'', headers = Map.empty\<rparr>"

definition authenticatedGet ::
  "string \<Rightarrow> APIClientConfig option \<Rightarrow> string \<Rightarrow> RequestInit option \<Rightarrow> 'b net
     \<Rightarrow> FetchResponse result \<times> 'b net" where
  "authenticatedGet baseURL apiClientConfig url config n =
     (let token = client_token apiClientConfig
      in if token \<noteq> [] then
           (case fetchWithTimeout (get_request baseURL token url config) timeout n of
              (Inl e, n1) \<Rightarrow> (Inl e, n1)
            | (Inr res, n1) \<Rightarrow> (fetchResponse res, n1))
         else (Inr unauthorized, n))"

definition authenticatedPost ::
  "string \<Rightarrow> APIClientConfig option \<Rightarrow> string \<Rightarrow> 'b option \<Rightarrow> RequestInit option \<Rightarrow> 'b net
     \<Rightarrow> FetchResponse result \<times> 'b net" where
  "authenticatedPost baseURL apiClientConfig url dat config n =
     (let token = client_token apiClientConfig
      in if token \<noteq> [] then
           (case fetchWithTimeout (post_request baseURL token url dat config) timeout n of
              (Inl e, n1) \<Rightarrow> (Inl e, n1)
            | (Inr res, n1) \<Rightarrow> (fetchResponse res, n1))
         else (Inr unauthorized, n))"

section \<open>The translation job\<close>

record FileMetadata =
  md_sourceFilePath :: string
  fileHash :: jsstring

text \<open>
  Modelled from the spec: \<^verbatim>\<open>generateStringHash\<close> of the package \<^verbatim>\<open>@blendin/sdk-js\<close> is
  not among the sources. It is the parameter \<open>generateStringHash\<close> of the functions
  that call it, from a text to its fingerprint. The spec describes the fingerprint as
  one that differs for different contents; \<open>collision_free\<close> says that of a hash.
\<close>

definition collision_free :: "(jsstring \<Rightarrow> jsstring) \<Rightarrow> bool" where
  "collision_free generateStringHash \<longleftrightarrow> inj generateStringHash"

text \<open>The fingerprint of a file content, as \<^verbatim>\<open>getFilesMetadata\<close> takes it.\<close>

definition content_hash :: "(jsstring \<Rightarrow> jsstring) \<Rightarrow> jsstring \<Rightarrow> jsstring" where
  "content_hash generateStringHash fileContent = generateStringHash (trim fileContent)"

fun getFilesMetadata ::
  "(jsstring \<Rightarrow> jsstring) \<Rightarrow> string list \<Rightarrow> filesystem \<Rightarrow> FileMetadata list result" where
  "getFilesMetadata generateStringHash [] s = Inr []"
| "getFilesMetadata generateStringHash (filePath # filePaths) s =
     (case readFileSync filePath s of
        Inl e \<Rightarrow> Inl e
      | Inr fileContent \<Rightarrow>
          (case getFilesMetadata generateStringHash filePaths s of
             Inl e \<Rightarrow> Inl e
           | Inr filesMetadata \<Rightarrow>
               Inr (\<lparr>md_sourceFilePath = filePath,
                     fileHash = generateStringHash (trim fileContent)\<rparr> # filesMetadata)))"

record TranslationJobPlanPostData =
  project_uuid :: "string option"
  source_locale_iso :: "string option"
  target_locale_isos :: "BlendinLocaleCode list option"
  files_metadata :: "FileMetadata list"

definition config_sourceFilePaths :: "BlendinConfig \<Rightarrow> string list" where
  "config_sourceFilePaths blendinConfig =
     (case parsing blendinConfig of
        None \<Rightarrow> []
      | Some p \<Rightarrow> (case sourceFilePaths p of None \<Rightarrow> [] | Some ps \<Rightarrow> ps))"

text \<open>
  \<^verbatim>\<open>blendinConfig.parsing?.translationsSavePath || ''\<close>, \<^verbatim>\<open>blendinConfig.project?.projectId\<close>
  and \<^verbatim>\<open>blendinConfig.project?.apiToken\<close>.
\<close>

definition config_translationsSavePath :: "BlendinConfig \<Rightarrow> string" where
  "config_translationsSavePath blendinConfig =
     (case parsing blendinConfig of
        None \<Rightarrow> []
      | Some p \<Rightarrow> (case translationsSavePath p of None \<Rightarrow> [] | Some t \<Rightarrow> t))"

definition config_projectId :: "BlendinConfig \<Rightarrow> string option" where
  "config_projectId blendinConfig =
     (case project blendinConfig of None \<Rightarrow> None | Some p \<Rightarrow> projectId p)"

definition config_apiToken :: "BlendinConfig \<Rightarrow> string option" where
  "config_apiToken blendinConfig =
     (case project blendinConfig of None \<Rightarrow> None | Some p \<Rightarrow> apiToken p)"

definition translationJobPlanPostData ::
  "BlendinConfig \<Rightarrow> FileMetadata list \<Rightarrow> TranslationJobPlanPostData" where
  "translationJobPlanPostData blendinConfig filesMetadata =
     \<lparr>project_uuid = config_projectId blendinConfig,
      source_locale_iso = (case locales blendinConfig of None \<Rightarrow> None | Some l \<Rightarrow> sourceLocale l),
      target_locale_isos = (case locales blendinConfig of None \<Rightarrow> None | Some l \<Rightarrow> targetLocales l),
      files_metadata = filesMetadata\<rparr>"

text \<open>
  \<^verbatim>\<open>executeTranslation\<close> reads the files, builds the plan, sends it and prints the
  answer; the function ends there (console output is not modelled). The file system is
  read only and handed back as it was.
\<close>

definition executeTranslation ::
  "(jsstring \<Rightarrow> jsstring) \<Rightarrow> string \<Rightarrow> BlendinConfig \<Rightarrow> filesystem
     \<Rightarrow> TranslationJobPlanPostData net
     \<Rightarrow> unit result \<times> filesystem \<times> TranslationJobPlanPostData net" where
  "executeTranslation generateStringHash baseURL blendinConfig s n =
     (case getFilesMetadata generateStringHash (config_sourceFilePaths blendinConfig) s of
        Inl e \<Rightarrow> (Inl e, s, n)
      | Inr filesMetadata \<Rightarrow>
          (case authenticatedPost baseURL
                  (Some (config_apiToken blendinConfig))
                  ''/translation-jobs/generate-plan-from-entire-files''
                  (Some (translationJobPlanPostData blendinConfig filesMetadata)) None n of
             (Inl e, n1) \<Rightarrow> (Inl e, s, n1)
           | (Inr translationJobPlanResponse, n1) \<Rightarrow> (Inr (), s, n1)))"

text \<open>
  \<^verbatim>\<open>pullTranslations\<close>. \<open>apiUrl\<close> is \<^verbatim>\<open>BLENDIN_CLI_API_URL\<close>, which the function puts in
  front of the path it passes to the client; \<open>baseURL\<close> is the client's.
\<close>

definition pullTranslations ::
  "string \<Rightarrow> string \<Rightarrow> APIClientConfig option \<Rightarrow> string \<Rightarrow> BlendinConfig \<Rightarrow> filesystem \<Rightarrow> 'b net
     \<Rightarrow> unit result \<times> filesystem \<times> 'b net" where
  "pullTranslations apiUrl baseURL apiClientConfig configDir blendinConfig s n =
     (let fileName = ''translations.json'';
          savePath = path_resolve (cwd s) [configDir, config_translationsSavePath blendinConfig];
          pid = config_projectId blendinConfig
      in case authenticatedGet baseURL apiClientConfig
                (apiUrl @ ''/projects/'' @ String pid @ ''/translations-object'') None n of
           (Inl e, n1) \<Rightarrow> (Inl e, s, n1)
         | (Inr res, n1) \<Rightarrow>
             (case get_property (data res) ''translations_object'' of
                Inl e \<Rightarrow> (Inl e, s, n1)
              | Inr translationsObject \<Rightarrow>
                  (case (if \<not> existsSync savePath s then mkdirSync savePath s else (Inr (), s)) of
                     (Inl e, s1) \<Rightarrow> (Inl e, s1, n1)
                   | (Inr u, s1) \<Rightarrow>
                       (case JSON_stringify_pretty translationsObject of
                          None \<Rightarrow>
                            (Inl (TypeError ''The data argument must be of type string''), s1, n1)
                        | Some txt \<Rightarrow>
                            (case writeFileSync (path_join [savePath, fileName]) (js txt) s1 of
                               (r, s2) \<Rightarrow> (r, s2, n1))))))"

section \<open>The progress poller\<close>

text \<open>
  \<^verbatim>\<open>pollTranslationProgress\<close> is event driven. Its state: the promise it returned, the
  \<open>sentinel\<close> flag, the interval timer (\<open>Some\<close> its period in milliseconds while it is
  set), the URLs it has passed to \<^verbatim>\<open>apiClient.authenticatedGet\<close>, the requests that
  reached the transport (the poller posts no data, so their bodies carry none), and how
  many of those are still awaited. Console output is not modelled.
\<close>

datatype promise_state = Pending | Fulfilled | Rejected js_exn

record poller =
  promise :: promise_state
  sentinel :: bool
  intervalId :: "nat option"
  asked :: "string list"
  sent :: "unit request list"
  in_flight :: nat

text \<open>A promise settles once: \<^verbatim>\<open>resolve\<close> and \<^verbatim>\<open>reject\<close> on a settled promise do nothing.\<close>

definition settle :: "promise_state \<Rightarrow> promise_state \<Rightarrow> promise_state" where
  "settle new old = (if old = Pending then new else old)"

definition progress_url :: "string \<Rightarrow> string \<Rightarrow> string" where
  "progress_url apiUrl translationJobId =
     apiUrl @ ''/translation-jobs/'' @ translationJobId @ ''/translation-progress''"

text \<open>The \<^verbatim>\<open>catch\<close> block of \<^verbatim>\<open>getAndPrintProgress\<close>.\<close>

definition on_error :: "js_exn \<Rightarrow> poller \<Rightarrow> poller" where
  "on_error err p =
     p\<lparr>sentinel := True, intervalId := None, promise := settle (Rejected err) (promise p)\<rparr>"

text \<open>
  \<^verbatim>\<open>getAndPrintProgress\<close> after its \<^verbatim>\<open>await\<close>: the call has thrown, or it has given a
  response, whose \<open>data\<close> is destructured (a TypeError when it is \<^verbatim>\<open>null\<close>) and whose two
  counts are compared with \<^verbatim>\<open>===\<close>.
\<close>

definition after_await :: "FetchResponse result \<Rightarrow> poller \<Rightarrow> poller" where
  "after_await r p =
     (case r of
        Inl err \<Rightarrow> on_error err p
      | Inr translationProgress \<Rightarrow>
          if data translationProgress = JNull
          then on_error (TypeError ''Cannot destructure property of null'') p
          else
            let translations_total = property (data translationProgress) ''translations_total'';
                translations_completed =
                  property (data translationProgress) ''translations_completed''
            in if strict_eq translations_completed translations_total
               then p\<lparr>intervalId := None, sentinel := True,
                      promise := settle Fulfilled (promise p)\<rparr>
               else p)"

text \<open>
  \<^verbatim>\<open>getAndPrintProgress\<close> up to its \<^verbatim>\<open>await\<close>: nothing when the sentinel is set;
  otherwise the client is called. With a token the request goes to the transport and is
  awaited; without one the client's promise is already resolved with the synthetic
  response, which is the second component: the function goes on with it as soon as the
  caller's code has run.
\<close>

definition getAndPrintProgress ::
  "string \<Rightarrow> string \<Rightarrow> APIClientConfig option \<Rightarrow> string \<Rightarrow> poller
     \<Rightarrow> poller \<times> FetchResponse option" where
  "getAndPrintProgress apiUrl baseURL apiClientConfig translationJobId p =
     (if sentinel p then (p, None)
      else
        let url = progress_url apiUrl translationJobId;
            token = client_token apiClientConfig;
            p1 = p\<lparr>asked := asked p @ [url]\<rparr>
        in if token \<noteq> []
           then (p1\<lparr>sent := sent p1 @ [get_request baseURL token url None],
                    in_flight := Suc (in_flight p1)\<rparr>, None)
           else (p1, Some unauthorized))"

definition continue :: "FetchResponse option \<Rightarrow> poller \<Rightarrow> poller" where
  "continue now p = (case now of None \<Rightarrow> p | Some r \<Rightarrow> after_await (Inr r) p)"

text \<open>
  What \<^verbatim>\<open>authenticatedGet\<close> makes of the transport's outcome for a request it awaits.
\<close>

definition awaited :: "fetch_outcome \<Rightarrow> FetchResponse result" where
  "awaited out = (case timed out timeout of Inl e \<Rightarrow> Inl e | Inr res \<Rightarrow> fetchResponse res)"

text \<open>
  \<^verbatim>\<open>pollTranslationProgress\<close> itself: one call of \<^verbatim>\<open>getAndPrintProgress\<close>, then
  \<^verbatim>\<open>setInterval(getAndPrintProgress, 1000)\<close>.
\<close>

definition pollTranslationProgress ::
  "string \<Rightarrow> string \<Rightarrow> APIClientConfig option \<Rightarrow> string \<Rightarrow> poller" where
  "pollTranslationProgress apiUrl baseURL apiClientConfig translationJobId =
     (case getAndPrintProgress apiUrl baseURL apiClientConfig translationJobId
             \<lparr>promise = Pending, sentinel = False, intervalId = None, asked = [], sent = [],
              in_flight = 0\<rparr> of
        (p1, now) \<Rightarrow> continue now (p1\<lparr>intervalId := Some 1000\<rparr>))"

text \<open>
  The events after that: the timer fires (only while it is set), or the transport
  settles one of the awaited requests.
\<close>

datatype event = Tick | Settled fetch_outcome

definition step ::
  "string \<Rightarrow> string \<Rightarrow> APIClientConfig option \<Rightarrow> string \<Rightarrow> poller \<Rightarrow> event \<Rightarrow> poller" where
  "step apiUrl baseURL apiClientConfig translationJobId p ev =
     (case ev of
        Tick \<Rightarrow>
          if intervalId p = None then p
          else (case getAndPrintProgress apiUrl baseURL apiClientConfig translationJobId p of
                  (p1, now) \<Rightarrow> continue now p1)
      | Settled out \<Rightarrow>
          if in_flight p = 0 then p
          else after_await (awaited out) (p\<lparr>in_flight := in_flight p - 1\<rparr>))"

definition run ::
  "string \<Rightarrow> string \<Rightarrow> APIClientConfig option \<Rightarrow> string \<Rightarrow> poller \<Rightarrow> event list \<Rightarrow> poller" where
  "run apiUrl baseURL apiClientConfig translationJobId p evs =
     foldl (step apiUrl baseURL apiClientConfig translationJobId) p evs"

section \<open>Notions the statements use\<close>

text \<open>The transport settles a request within \<open>ms\<close> milliseconds.\<close>

fun settles_within :: "fetch_outcome \<Rightarrow> nat \<Rightarrow> bool" where
  "settles_within (Responds t res) ms = (t \<le> ms)"
| "settles_within (Fails t err) ms = (t \<le> ms)"
| "settles_within Hangs ms = False"

text \<open>
  The copies \<open>copySourceFilesToLocales\<close> makes, in its order: for every target locale
  other than the default locale's code, every source file. \<open>copy_ops\<close> are the calls
  they stand for, and \<open>last_copy_to s k\<close> is the last of them whose destination is the
  file \<open>k\<close>. \<open>sources_apart\<close> says that no source file of the plan is the destination of
  one of its copies.
\<close>

definition copy_plan ::
  "(string \<Rightarrow> BlendinLocaleCode) \<Rightarrow> SourceFilePathAndPluginName list \<Rightarrow> BlendinLocaleCode list
     \<Rightarrow> string \<Rightarrow> (BlendinLocaleCode \<times> SourceFilePathAndPluginName) list" where
  "copy_plan flags source_files target_locales default_locale =
     concat (map (\<lambda>l. map (Pair l) source_files)
                 (filter (\<lambda>l. l \<noteq> flags default_locale) target_locales))"

definition copy_ops :: "(BlendinLocaleCode \<times> SourceFilePathAndPluginName) list \<Rightarrow> fs_op list" where
  "copy_ops plan =
     concat (map (\<lambda>(l, f). [Mkdir (destinationDir l f),
                              CopyFile (sourceFilePath f) (destinationPath l f)]) plan)"

definition last_copy_to ::
  "filesystem \<Rightarrow> string \<Rightarrow> (BlendinLocaleCode \<times> SourceFilePathAndPluginName) list
     \<Rightarrow> (BlendinLocaleCode \<times> SourceFilePathAndPluginName) option" where
  "last_copy_to s k plan = find (\<lambda>(l, f). fs_key s (destinationPath l f) = k) (rev plan)"

definition sources_apart ::
  "filesystem \<Rightarrow> (BlendinLocaleCode \<times> SourceFilePathAndPluginName) list \<Rightarrow> bool" where
  "sources_apart s plan \<longleftrightarrow>
     list_all (\<lambda>(l, f). list_all (\<lambda>(l', g).
         fs_key s (sourceFilePath g) \<noteq> fs_key s (destinationPath l f)) plan) plan"

text \<open>
  A path of one or more segments, none of them empty, \<^verbatim>\<open>.\<close> or \<^verbatim>\<open>..\<close>: a path that
  \<^verbatim>\<open>path.join\<close> leaves as it is.
\<close>

definition clean_path :: "string \<Rightarrow> bool" where
  "clean_path p \<longleftrightarrow> list_all (\<lambda>s. s \<noteq> [] \<and> s \<noteq> ''.'' \<and> s \<noteq> ''..'') (split_on sep p)"

section \<open>Example inputs\<close>

text \<open>
  A site with two documents, its configuration, and a transport that answers every
  request after 120 milliseconds with status 200 and a given JSON body.
\<close>

definition site_fs :: filesystem where
  "site_fs =
     \<lparr>cwd = ''/site'',
      files = [''/site/docs/a.md'' \<mapsto> js ''Hello'' @ [0x0A], ''/site/docs/b.md'' \<mapsto> js ''World''],
      dirs = {''/'', ''/site'', ''/site/docs''},
      oplog = []\<rparr>"

definition site_config :: BlendinConfig where
  "site_config =
     \<lparr>project = Some \<lparr>projectId = Some ''proj-1'', apiToken = Some ''tok''\<rparr>,
      parsing = Some \<lparr>sourceFilePaths = Some [''docs/a.md'', ''/site/docs/b.md''],
                      translationsSavePath = Some ''out''\<rparr>,
      locales = Some \<lparr>sourceLocale = Some ''en-US'', defaultLocale = Some ''en'',
                      targetLocales = Some [Some ''fr-FR'', Some ''de-DE'']\<rparr>\<rparr>"

definition ok_response :: "json \<Rightarrow> response" where
  "ok_response d =
     \<lparr>resp_status = 200, resp_statusText = ''OK'', resp_headers = Map.empty, resp_json = Inr d\<rparr>"

definition answering :: "json \<Rightarrow> 'b net" where
  "answering d = \<lparr>transport = (\<lambda>i r. Responds 120 (ok_response d)), calls = []\<rparr>"


text \<open>
  The answer of the server to a plan, its answer to the request for the translations
  object, and the text \<^verbatim>\<open>JSON.stringify\<close> makes of that object.
\<close>

definition plan_answer :: json where
  "plan_answer = JObj [(''new_translations_count'', JNum 2)]"

definition translations_answer :: json where
  "translations_answer =
     JObj [(''translations_object'', JObj [(''fr-FR'', JObj [(''hello'', JStr ''bonjour'')])])]"

definition translations_text :: string where
  "translations_text =
     ''{'' @ [CHR 0x0A]
     @ ''  '' @ [CHR 0x22] @ ''fr-FR'' @ [CHR 0x22] @ '': {'' @ [CHR 0x0A]
     @ ''    '' @ [CHR 0x22] @ ''hello'' @ [CHR 0x22] @ '': '' @ [CHR 0x22] @ ''bonjour'' @ [CHR 0x22]
     @ [CHR 0x0A]
     @ ''  }'' @ [CHR 0x0A]
     @ ''}''"

text \<open>
  A site where a source file lies at the place another file is copied to, and a site
  with a page and a post of the same name; a table of locale codes.
\<close>

definition alias_fs :: filesystem where
  "alias_fs =
     \<lparr>cwd = ''/site'',
      files = [''/site/i18n/fr/q/current/a.md'' \<mapsto> js ''old'',
               ''/site/docs/a.md'' \<mapsto> js ''A'',
               ''/site/blog/a.md'' \<mapsto> js ''B''],
      dirs = {''/'', ''/site'', ''/site/docs'', ''/site/blog'', ''/site/i18n'', ''/site/i18n/fr'',
              ''/site/i18n/fr/q'', ''/site/i18n/fr/q/current''},
      oplog = []\<rparr>"

definition alias_files :: "SourceFilePathAndPluginName list" where
  "alias_files =
     [\<lparr>pluginName = ''p'', sourceFilePath = ''i18n/fr/q/current/a.md''\<rparr>,
      \<lparr>pluginName = ''p'', sourceFilePath = ''docs/a.md''\<rparr>,
      \<lparr>pluginName = ''q'', sourceFilePath = ''blog/a.md''\<rparr>]"

definition docs_post :: SourceFilePathAndPluginName where
  "docs_post = \<lparr>pluginName = ''p'', sourceFilePath = ''/site/docs/a.md''\<rparr>"

definition blog_post :: SourceFilePathAndPluginName where
  "blog_post = \<lparr>pluginName = ''p'', sourceFilePath = ''/site/blog/a.md''\<rparr>"

definition example_flags :: "string \<Rightarrow> BlendinLocaleCode" where
  "example_flags l =
     (if l = ''en'' then Some ''en-US'' else if l = ''fr'' then Some ''fr-FR'' else None)"

definition blog_fs :: filesystem where
  "blog_fs =
     \<lparr>cwd = ''/site'',
      files = [''/site/docs/a.md'' \<mapsto> js ''Docs page'', ''/site/blog/a.md'' \<mapsto> js ''Blog post''],
      dirs = {''/'', ''/site'', ''/site/docs'', ''/site/blog''},
      oplog = []\<rparr>"

text \<open>The three source files of the first of these sites, by name.\<close>

definition alias_old :: SourceFilePathAndPluginName where
  "alias_old = \<lparr>pluginName = ''p'', sourceFilePath = ''i18n/fr/q/current/a.md''\<rparr>"

definition alias_doc :: SourceFilePathAndPluginName where
  "alias_doc = \<lparr>pluginName = ''p'', sourceFilePath = ''docs/a.md''\<rparr>"

definition alias_blog :: SourceFilePathAndPluginName where
  "alias_blog = \<lparr>pluginName = ''q'', sourceFilePath = ''blog/a.md''\<rparr>"


section \<open>Evaluation and helper lemmas\<close>

lemmas path_eval =
  path_join_def path_normalize_def join_with_def sep_def path_basename_def path_resolve_def
  toLowerCase_def lower_char_def String_def parent_dir_def ancestors_def

lemmas fs_eval =
  fs_key_def mkdirSync_def copyFileSync_def writeFileSync_def existsSync_def readFileSync_def

lemma timed_late: "\<not> settles_within out ms \<Longrightarrow> timed out ms = Inl (Error ''Request timed out'')"
  by (cases out) auto



lemmas example_eval = site_fs_def site_config_def ok_response_def answering_def

lemma dropWhile_fixed: "xs = [] \<or> \<not> P (hd xs) \<Longrightarrow> dropWhile P xs = xs"
  by (cases xs) auto

lemma hd_dropWhile_not: "dropWhile P xs \<noteq> [] \<Longrightarrow> \<not> P (hd (dropWhile P xs))"
  by (simp add: hd_dropWhile)

lemma hd_rev_dropWhile_rev:
  "rev (dropWhile P (rev xs)) \<noteq> [] \<Longrightarrow> hd (rev (dropWhile P (rev xs))) = hd xs"
proof -
  assume ne: "rev (dropWhile P (rev xs)) \<noteq> []"
  have "xs = rev (dropWhile P (rev xs)) @ rev (takeWhile P (rev xs))"
    by (metis rev_append rev_rev_ident takeWhile_dropWhile_id)
  then show ?thesis using ne by (metis hd_append2)
qed

lemma dropWhile_rev_dropWhile_rev:
  assumes "t = [] \<or> \<not> P (hd t)"
  shows "dropWhile P (rev (dropWhile P (rev t))) = rev (dropWhile P (rev t))"
proof (cases "t = []")
  case True
  then show ?thesis by simp
next
  case False
  define u where "u = rev (dropWhile P (rev t))"
  have "u = [] \<or> \<not> P (hd u)"
  proof (cases "u = []")
    case True
    then show ?thesis by simp
  next
    case ne: False
    then have "hd u = hd t"
      unfolding u_def by (rule hd_rev_dropWhile_rev)
    with assms False show ?thesis by simp
  qed
  then have "dropWhile P u = u" by (rule dropWhile_fixed)
  then show ?thesis by (simp only: u_def)
qed

lemma trim_idem: "trim (trim s) = trim s"
proof -
  define t where "t = dropWhile isWhiteSpace s"
  have "t = [] \<or> \<not> isWhiteSpace (hd t)"
    unfolding t_def using hd_dropWhile_not [of isWhiteSpace s] by blast
  then have "dropWhile isWhiteSpace (rev (dropWhile isWhiteSpace (rev t)))
               = rev (dropWhile isWhiteSpace (rev t))"
    by (rule dropWhile_rev_dropWhile_rev)
  then show ?thesis
    by (simp add: trim_def t_def dropWhile_idem)
qed

lemma getFilesMetadata_Inr:
  "getFilesMetadata h ps s = Inr ms \<Longrightarrow>
     length ms = length ps
     \<and> (\<forall>i < length ps. \<exists>c. readFileSync (ps ! i) s = Inr c
            \<and> ms ! i = \<lparr>md_sourceFilePath = ps ! i, fileHash = h (trim c)\<rparr>)"
proof (induction ps arbitrary: ms)
  case Nil
  then show ?case by simp
next
  case (Cons p ps)
  from Cons.prems obtain c ms' where
    c: "readFileSync p s = Inr c" and
    r: "getFilesMetadata h ps s = Inr ms'" and
    ms: "ms = \<lparr>md_sourceFilePath = p, fileHash = h (trim c)\<rparr> # ms'"
    by (auto split: sum.splits)
  from Cons.IH [OF r] have ih: "length ms' = length ps"
    "\<forall>i < length ps. \<exists>c. readFileSync (ps ! i) s = Inr c
            \<and> ms' ! i = \<lparr>md_sourceFilePath = ps ! i, fileHash = h (trim c)\<rparr>"
    by auto
  show ?case
  proof (intro conjI allI impI)
    show "length ms = length (p # ps)" using ih ms by simp
  next
    fix i assume "i < length (p # ps)"
    then show "\<exists>c. readFileSync ((p # ps) ! i) s = Inr c
            \<and> ms ! i = \<lparr>md_sourceFilePath = (p # ps) ! i, fileHash = h (trim c)\<rparr>"
      using c ms ih by (cases i) auto
  qed
qed
















lemma site_files_metadata:
  "getFilesMetadata (\<lambda>t. t) (config_sourceFilePaths site_config) site_fs =
       Inr [\<lparr>md_sourceFilePath = ''docs/a.md'', fileHash = js ''Hello''\<rparr>,
            \<lparr>md_sourceFilePath = ''/site/docs/b.md'', fileHash = js ''World''\<rparr>]"
  by (simp add: example_eval config_sourceFilePaths_def fs_eval path_eval trim_def js_def
      isWhiteSpace_def)

lemmas client_eval =
  authenticatedGet_def authenticatedPost_def fetchWithTimeout_def client_token_def
  get_request_def post_request_def config_headers_def fetchResponse_def timeout_def
  unauthorized_def

lemmas json_eval =
  JSON_stringify_pretty_def join_lines_def spaces_def quote_def quote_char_def show_int_def
  get_property_def

lemma authenticatedGet_Inr:
  assumes "authenticatedGet baseURL c url config n = (Inr r, n1)"
  shows "(client_token c = [] \<and> r = unauthorized \<and> n1 = n)
       \<or> (client_token c \<noteq> []
           \<and> n1 = n\<lparr>calls := calls n @ [get_request baseURL (client_token c) url config]\<rparr>
           \<and> (\<exists>t res. transport n (length (calls n)) (get_request baseURL (client_token c) url config)
                         = Responds t res
                  \<and> t < 30000 \<and> resp_json res = Inr (data r)))"
proof (cases "client_token c = []")
  case True
  with assms show ?thesis by (simp add: authenticatedGet_def)
next
  case False
  let ?req = "get_request baseURL (client_token c) url config"
  from assms False obtain res where
    t: "timed (transport n (length (calls n)) ?req) timeout = Inr res" and
    f: "fetchResponse res = Inr r" and
    n1: "n1 = n\<lparr>calls := calls n @ [?req]\<rparr>"
    by (auto simp: authenticatedGet_def fetchWithTimeout_def Let_def split: sum.splits)
  from t obtain d where "transport n (length (calls n)) ?req = Responds d res" "d < timeout"
    by (cases "transport n (length (calls n)) ?req") (auto split: if_splits)
  moreover from f have "resp_json res = Inr (data r)"
    by (auto simp: fetchResponse_def split: sum.splits)
  ultimately show ?thesis using False n1 by (auto simp: timeout_def)
qed

lemma mkdirSync_Inr:
  "mkdirSync p s = (Inr u, s1) \<Longrightarrow>
     fs_key s p \<in> dirs s1 \<and> files s1 = files s \<and> cwd s1 = cwd s \<and> dirs s \<subseteq> dirs s1
     \<and> oplog s1 = oplog s @ [Mkdir p]"
  by (auto simp: mkdirSync_def Let_def split: if_splits)

lemma writeFileSync_Inr:
  "writeFileSync p c s = (Inr u, s1) \<Longrightarrow>
     files s1 = (files s)(fs_key s p \<mapsto> c) \<and> dirs s1 = dirs s \<and> cwd s1 = cwd s
     \<and> oplog s1 = oplog s @ [WriteFile p c]"
  by (auto simp: writeFileSync_def Let_def split: if_splits)

lemma executeTranslation_effects:
  "fst (snd (executeTranslation h baseURL blendinConfig s n)) = s
   \<and> (\<exists>reqs. calls (snd (snd (executeTranslation h baseURL blendinConfig s n))) = calls n @ reqs
          \<and> length reqs \<le> 1
          \<and> list_all (\<lambda>r. req_url r = baseURL @ ''/translation-jobs/generate-plan-from-entire-files'') reqs)"
  by (auto simp: executeTranslation_def authenticatedPost_def fetchWithTimeout_def post_request_def
      Let_def split: sum.splits prod.splits)

lemma pullTranslations_Inr:
  assumes run: "pullTranslations apiUrl baseURL c configDir blendinConfig s n = (Inr u, s1, n1)"
  defines "savePath \<equiv> path_resolve (cwd s) [configDir, config_translationsSavePath blendinConfig]"
    and "req \<equiv> get_request baseURL (client_token c)
            (apiUrl @ ''/projects/'' @ String (config_projectId blendinConfig)
               @ ''/translations-object'') None"
  shows "client_token c \<noteq> [] \<and> calls n1 = calls n @ [req]
       \<and> (\<exists>t res d obj. transport n (length (calls n)) req = Responds t res \<and> t < 30000
              \<and> resp_json res = Inr d \<and> property d ''translations_object'' = Some obj
              \<and> files s1 (fs_key s (path_join [savePath, ''translations.json'']))
                   = Some (js (serialize 0 obj)))
       \<and> (\<not> existsSync savePath s \<longrightarrow> fs_key s savePath \<in> dirs s1)"
proof -
  let ?url = "apiUrl @ ''/projects/'' @ String (config_projectId blendinConfig)
               @ ''/translations-object''"
  from run obtain r n' where g: "authenticatedGet baseURL c ?url None n = (Inr r, n')"
    unfolding pullTranslations_def Let_def
    by (auto split: prod.splits sum.splits)
  from run g have n': "n' = n1"
    unfolding pullTranslations_def Let_def
    by (auto split: prod.splits sum.splits option.splits if_splits)
  from run g obtain v where gp: "get_property (data r) ''translations_object'' = Inr v"
    unfolding pullTranslations_def Let_def
    by (auto split: prod.splits sum.splits)
  from run g gp obtain s0 u0 where
    mk: "(if \<not> existsSync savePath s then mkdirSync savePath s else (Inr (), s)) = (Inr u0, s0)"
    unfolding pullTranslations_def Let_def savePath_def
    by (auto split: prod.splits sum.splits)
  from run g gp mk obtain txt0 where js0: "JSON_stringify_pretty v = Some txt0"
    unfolding pullTranslations_def Let_def savePath_def
    by (auto split: prod.splits sum.splits option.splits)
  from run g gp mk js0 have
    wr: "writeFileSync (path_join [savePath, ''translations.json'']) (js txt0) s0 = (Inr u, s1)"
    unfolding pullTranslations_def Let_def savePath_def
    by (auto split: prod.splits sum.splits option.splits)
  from js0 obtain obj where v: "v = Some obj" and txt0: "txt0 = serialize 0 obj"
    by (auto simp: JSON_stringify_pretty_def)
  from gp v have tobj: "property (data r) ''translations_object'' = Some obj"
    by (auto simp: get_property_def split: if_splits)
  have tok: "client_token c \<noteq> []"
  proof
    assume "client_token c = []"
    with g have "r = unauthorized" by (simp add: authenticatedGet_def)
    with tobj show False by (simp add: unauthorized_def)
  qed
  from authenticatedGet_Inr [OF g] tok n' obtain t res where
    calls: "n1 = n\<lparr>calls := calls n @ [req]\<rparr>" and
    tr: "transport n (length (calls n)) req = Responds t res" "t < 30000" "resp_json res = Inr (data r)"
    unfolding req_def by auto
  have s0: "cwd s0 = cwd s \<and> (\<not> existsSync savePath s \<longrightarrow> fs_key s savePath \<in> dirs s0)"
    using mk mkdirSync_Inr [of savePath s u0 s0] by (auto split: if_splits)
  from writeFileSync_Inr [OF wr] s0 have
    "files s1 (fs_key s (path_join [savePath, ''translations.json''])) = Some (js (serialize 0 obj))"
    "\<not> existsSync savePath s \<longrightarrow> fs_key s savePath \<in> dirs s1"
    by (auto simp: fs_key_def txt0)
  with tok calls tr tobj show ?thesis by auto
qed

lemmas copy_eval =
  copySourceFilesToLocales_def copySourceFile_def destinationDir_def destinationPath_def

lemma forEach_append:
  "forEach f (xs @ ys) s =
     (case forEach f xs s of (Inl e, s1) \<Rightarrow> (Inl e, s1) | (Inr u, s1) \<Rightarrow> forEach f ys s1)"
  by (induction xs arbitrary: s) (auto split: prod.splits sum.splits)

lemma forEach_map_Pair:
  "forEach (\<lambda>(l, f). g l f) (map (Pair l) xs) s = forEach (g l) xs s"
  by (induction xs arbitrary: s) (auto split: prod.splits sum.splits)

lemma copy_as_plan:
  "copySourceFilesToLocales flags source_files target_locales default_locale s =
     forEach (\<lambda>(l, f). copySourceFile l f)
       (copy_plan flags source_files target_locales default_locale) s"
proof -
  have "forEach
       (\<lambda>locale s1.
          if locale = d then (Inr (), s1)
          else forEach (\<lambda>file. copySourceFile locale file) source_files s1) ls s
     = forEach (\<lambda>(l, f). copySourceFile l f)
         (concat (map (\<lambda>l. map (Pair l) source_files) (filter (\<lambda>l. l \<noteq> d) ls))) s" for d ls
  proof (induction ls arbitrary: s)
    case Nil
    then show ?case by simp
  next
    case (Cons l ls)
    show ?case
    proof (cases "l = d")
      case True
      with Cons.IH show ?thesis by simp
    next
      case False
      with Cons.IH show ?thesis
        by (simp add: forEach_append forEach_map_Pair split: prod.splits sum.splits)
    qed
  qed
  then show ?thesis
    by (simp add: copySourceFilesToLocales_def copy_plan_def)
qed

lemma copySourceFile_Inr:
  assumes "copySourceFile l f s = (Inr u, s1)"
  shows "\<exists>c. files s (fs_key s (sourceFilePath f)) = Some c
           \<and> files s1 = (files s)(fs_key s (destinationPath l f) \<mapsto> c)
           \<and> cwd s1 = cwd s
           \<and> oplog s1 = oplog s @ [Mkdir (destinationDir l f),
                                    CopyFile (sourceFilePath f) (destinationPath l f)]"
  using assms
  by (auto simp: copySourceFile_def mkdirSync_def copyFileSync_def fs_key_def Let_def
      split: if_splits option.splits)

lemma copySourceFile_Inl:
  assumes "copySourceFile l f s = (Inl e, s1)"
  shows "files s1 = files s \<and> cwd s1 = cwd s"
  using assms
  by (auto simp: copySourceFile_def mkdirSync_def copyFileSync_def fs_key_def Let_def
      split: if_splits option.splits)

lemma fs_key_cwd: "cwd s1 = cwd s \<Longrightarrow> fs_key s1 p = fs_key s p"
  by (simp add: fs_key_def)

lemma plan_frame:
  "forEach (\<lambda>(l, f). copySourceFile l f) plan s = (r, s1) \<Longrightarrow>
     cwd s1 = cwd s
     \<and> (\<forall>k. files s1 k \<noteq> files s k \<longrightarrow> (\<exists>(l, f) \<in> set plan. k = fs_key s (destinationPath l f)))"
proof (induction plan arbitrary: s)
  case Nil
  then show ?case by simp
next
  case (Cons x plan)
  obtain l f where x: "x = (l, f)" by (cases x)
  obtain r0 s0 where step: "copySourceFile l f s = (r0, s0)" by (cases "copySourceFile l f s")
  show ?case
  proof (cases r0)
    case (Inl e)
    with Cons.prems x step have "s1 = s0" by simp
    with copySourceFile_Inl [of l f s e s0] step Inl show ?thesis by simp
  next
    case (Inr u)
    with Cons.prems x step have rest: "forEach (\<lambda>(l, f). copySourceFile l f) plan s0 = (r, s1)"
      by simp
    from copySourceFile_Inr [of l f s u s0] step Inr obtain c where
      c: "files s0 = (files s)(fs_key s (destinationPath l f) \<mapsto> c)" "cwd s0 = cwd s"
      by auto
    from Cons.IH [OF rest] have ih: "cwd s1 = cwd s0"
      "\<forall>k. files s1 k \<noteq> files s0 k \<longrightarrow> (\<exists>(l, f) \<in> set plan. k = fs_key s0 (destinationPath l f))"
      by auto
    have keys: "fs_key s0 p = fs_key s p" for p
      using c(2) by (rule fs_key_cwd)
    show ?thesis
    proof (intro conjI allI impI)
      show "cwd s1 = cwd s" using ih(1) c(2) by simp
    next
      fix k assume ne: "files s1 k \<noteq> files s k"
      show "\<exists>(l, f) \<in> set (x # plan). k = fs_key s (destinationPath l f)"
      proof (cases "k = fs_key s (destinationPath l f)")
        case True
        with x show ?thesis by auto
      next
        case False
        with c(1) have "files s0 k = files s k" by simp
        with ne have "files s1 k \<noteq> files s0 k" by simp
        with ih(2) keys show ?thesis by auto
      qed
    qed
  qed
qed

lemma plan_result:
  "forEach (\<lambda>(l, f). copySourceFile l f) plan s = (Inr u, s1) \<Longrightarrow> sources_apart s plan \<Longrightarrow>
     cwd s1 = cwd s
     \<and> oplog s1 = oplog s @ copy_ops plan
     \<and> (\<forall>k. files s1 k =
          (case last_copy_to s k plan of
             None \<Rightarrow> files s k
           | Some (l, g) \<Rightarrow> files s (fs_key s (sourceFilePath g))))"
proof (induction plan arbitrary: u s1 rule: rev_induct)
  case Nil
  then show ?case by (simp add: copy_ops_def last_copy_to_def)
next
  case (snoc x plan)
  obtain l f where x: "x = (l, f)" by (cases x)
  from snoc.prems(1) x obtain u0 s0 where
    first: "forEach (\<lambda>(l, f). copySourceFile l f) plan s = (Inr u0, s0)" and
    last: "copySourceFile l f s0 = (Inr u, s1)"
    by (auto simp: forEach_append split: prod.splits sum.splits)
  from snoc.prems(2) have apart: "sources_apart s plan"
    by (auto simp: sources_apart_def list_all_iff)
  from snoc.IH [OF first apart] have ih:
    "cwd s0 = cwd s" "oplog s0 = oplog s @ copy_ops plan"
    "\<forall>k. files s0 k = (case last_copy_to s k plan of None \<Rightarrow> files s k
                         | Some (l, g) \<Rightarrow> files s (fs_key s (sourceFilePath g)))"
    by auto
  have keys: "fs_key s0 p = fs_key s p" for p
    using ih(1) by (rule fs_key_cwd)
  from copySourceFile_Inr [OF last] keys obtain c where
    c: "files s0 (fs_key s (sourceFilePath f)) = Some c"
       "files s1 = (files s0)(fs_key s (destinationPath l f) \<mapsto> c)"
       "cwd s1 = cwd s0"
       "oplog s1 = oplog s0 @ [Mkdir (destinationDir l f),
                                CopyFile (sourceFilePath f) (destinationPath l f)]"
    by auto
  have no_writer: "last_copy_to s (fs_key s (sourceFilePath f)) plan = None"
    using snoc.prems(2) x
    by (auto simp: last_copy_to_def sources_apart_def list_all_iff find_None_iff)
  with ih(3) c(1) have src: "files s (fs_key s (sourceFilePath f)) = Some c"
    by simp
  have files: "files s1 k =
          (case last_copy_to s k (plan @ [x]) of
             None \<Rightarrow> files s k
           | Some (l, g) \<Rightarrow> files s (fs_key s (sourceFilePath g)))" for k
  proof (cases "k = fs_key s (destinationPath l f)")
    case True
    then show ?thesis using c(2) src x by (simp add: last_copy_to_def)
  next
    case False
    then have "last_copy_to s k (plan @ [x]) = last_copy_to s k plan"
      using x by (auto simp: last_copy_to_def)
    with False c(2) ih(3) show ?thesis by simp
  qed
  have "oplog s1 = oplog s @ copy_ops (plan @ [x])"
    using c(4) ih(2) x by (simp add: copy_ops_def)
  with files c(3) ih(1) show ?case by simp
qed

lemma copy_plan_set:
  "set (copy_plan flags source_files target_locales default_locale) =
     {(l, f). l \<in> set target_locales \<and> l \<noteq> flags default_locale \<and> f \<in> set source_files}"
  by (auto simp: copy_plan_def)

subsection \<open>Paths that \<^verbatim>\<open>path.join\<close> leaves as they are\<close>

lemma split_on_not_Nil: "split_on c p \<noteq> []"
  by (induction p) (auto split: list.splits)

lemma join_with_Cons: "join_with d (y # ys) = y @ concat (map (\<lambda>z. d @ z) ys)"
  by (simp add: join_with_def)

lemma join_split: "join_with [c] (split_on c p) = p"
proof (induction p)
  case Nil
  then show ?case by (simp add: join_with_def)
next
  case (Cons x xs)
  obtain s ss where sp: "split_on c xs = s # ss"
    using split_on_not_Nil [of c xs] by (cases "split_on c xs") auto
  with Cons show ?case by (auto simp: join_with_Cons)
qed

lemma split_on_append:
  "split_on c (a @ c # b) = split_on c a @ split_on c b"
proof (induction a)
  case Nil
  then show ?case by simp
next
  case (Cons x a)
  obtain s ss where sp: "split_on c a = s # ss"
    using split_on_not_Nil [of c a] by (cases "split_on c a") auto
  with Cons show ?case by auto
qed

lemma normalizeString_clean:
  "list_all (\<lambda>s. s \<noteq> [] \<and> s \<noteq> ''.'' \<and> s \<noteq> ''..'') segs \<Longrightarrow>
     normalizeString a acc segs = rev acc @ segs"
  by (induction segs arbitrary: acc) auto

lemma hd_split_on: "p \<noteq> [] \<Longrightarrow> hd p = c \<Longrightarrow> hd (split_on c p) = []"
  by (cases p) auto

lemma last_split_on: "p \<noteq> [] \<Longrightarrow> last p = c \<Longrightarrow> last (split_on c p) = []"
proof -
  assume "p \<noteq> []" "last p = c"
  then have "p = butlast p @ c # []"
    by (metis append_butlast_last_id)
  then have "split_on c p = split_on c (butlast p) @ split_on c []"
    by (metis split_on_append)
  then show ?thesis by simp
qed

lemma clean_path_ends:
  assumes "clean_path p"
  shows "p \<noteq> [] \<and> hd p \<noteq> sep \<and> last p \<noteq> sep"
proof -
  from assms have all: "list_all (\<lambda>s. s \<noteq> []) (split_on sep p)"
    by (auto simp: clean_path_def list_all_iff)
  have ne: "p \<noteq> []"
    using all by (cases p) auto
  have "hd p \<noteq> sep"
  proof
    assume "hd p = sep"
    from hd_split_on [OF ne this] all split_on_not_Nil [of sep p] show False
      by (cases "split_on sep p") auto
  qed
  moreover have "last p \<noteq> sep"
  proof
    assume "last p = sep"
    from last_split_on [OF ne this] all split_on_not_Nil [of sep p] show False
      by (auto simp: list_all_iff dest: last_in_set)
  qed
  ultimately show ?thesis using ne by simp
qed

lemma path_normalize_clean: "clean_path p \<Longrightarrow> path_normalize p = p"
proof -
  assume c: "clean_path p"
  from clean_path_ends [OF c] have e: "p \<noteq> []" "hd p \<noteq> sep" "last p \<noteq> sep" by auto
  from c have "normalizeString True [] (split_on sep p) = split_on sep p"
    by (simp add: clean_path_def normalizeString_clean)
  with e show ?thesis
    by (simp add: path_normalize_def join_split Let_def)
qed

lemma clean_path_append: "clean_path a \<Longrightarrow> clean_path b \<Longrightarrow> clean_path (a @ sep # b)"
  by (simp add: clean_path_def split_on_append)

lemma path_join_clean2:
  assumes "clean_path a" "clean_path b"
  shows "path_join [a, b] = a @ sep # b"
proof -
  from assms clean_path_ends have "a \<noteq> []" "b \<noteq> []" by auto
  then have "path_join [a, b] = path_normalize (a @ sep # b)"
    by (simp add: path_join_def join_with_def)
  with path_normalize_clean [OF clean_path_append [OF assms]] show ?thesis by simp
qed

lemma path_join_clean4:
  assumes "clean_path a" "clean_path b" "clean_path c" "clean_path d"
  shows "path_join [a, b, c, d] = a @ sep # b @ sep # c @ sep # d"
proof -
  from assms clean_path_ends have "a \<noteq> []" "b \<noteq> []" "c \<noteq> []" "d \<noteq> []" by auto
  then have "path_join [a, b, c, d] = path_normalize (a @ sep # b @ sep # c @ sep # d)"
    by (simp add: path_join_def join_with_def)
  moreover have "clean_path (a @ sep # b @ sep # c @ sep # d)"
    using assms by (intro clean_path_append)
  ultimately show ?thesis by (simp add: path_normalize_clean)
qed

lemma destinationPath_clean:
  assumes "clean_path (toLowerCase (String l))" "clean_path (pluginName f)"
    "clean_path (path_basename (sourceFilePath f))"
  shows "destinationPath l f =
           ''i18n/'' @ toLowerCase (String l) @ ''/'' @ pluginName f @ ''/current/''
             @ path_basename (sourceFilePath f)"
proof -
  have i: "clean_path ''i18n''" and c: "clean_path ''current''"
    by (simp_all add: clean_path_def sep_def)
  have dir: "destinationDir l f
      = ''i18n'' @ sep # toLowerCase (String l) @ sep # pluginName f @ sep # ''current''"
    unfolding destinationDir_def by (rule path_join_clean4 [OF i assms(1) assms(2) c])
  have "clean_path (destinationDir l f)"
    unfolding dir using i assms c by (intro clean_path_append)
  from path_join_clean2 [OF this assms(3)] dir show ?thesis
    by (simp add: destinationPath_def sep_def)
qed

subsection \<open>What a run of copies logs and leaves\<close>

lemma copySourceFile_oplog_take:
  "\<exists>m. oplog (snd (copySourceFile l f s)) =
         oplog s @ take m [Mkdir (destinationDir l f),
                           CopyFile (sourceFilePath f) (destinationPath l f)]"
proof (cases "fst (mkdirSync (destinationDir l f) s)")
  case (Inl e)
  then have "oplog (snd (copySourceFile l f s)) =
         oplog s @ take 1 [Mkdir (destinationDir l f),
                           CopyFile (sourceFilePath f) (destinationPath l f)]"
    by (auto simp: copySourceFile_def mkdirSync_def Let_def split: if_splits)
  then show ?thesis ..
next
  case (Inr u)
  then have "oplog (snd (copySourceFile l f s)) =
         oplog s @ take 2 [Mkdir (destinationDir l f),
                           CopyFile (sourceFilePath f) (destinationPath l f)]"
    by (auto simp: copySourceFile_def mkdirSync_def copyFileSync_def Let_def
        split: if_splits option.splits)
  then show ?thesis ..
qed

lemma plan_oplog_Inr:
  "forEach (\<lambda>(l, f). copySourceFile l f) plan s = (Inr u, s1) \<Longrightarrow>
     oplog s1 = oplog s @ copy_ops plan \<and> cwd s1 = cwd s"
proof (induction plan arbitrary: s)
  case Nil
  then show ?case by (simp add: copy_ops_def)
next
  case (Cons x plan)
  obtain l f where x: "x = (l, f)" by (cases x)
  from Cons.prems x obtain u0 s0 where
    first: "copySourceFile l f s = (Inr u0, s0)" and
    rest: "forEach (\<lambda>(l, f). copySourceFile l f) plan s0 = (Inr u, s1)"
    by (auto split: prod.splits sum.splits)
  from copySourceFile_Inr [OF first] Cons.IH [OF rest] x show ?case
    by (auto simp: copy_ops_def)
qed

lemma plan_oplog_take:
  "\<exists>n. oplog (snd (forEach (\<lambda>(l, f). copySourceFile l f) plan s)) = oplog s @ take n (copy_ops plan)"
proof (induction plan arbitrary: s)
  case Nil
  then show ?case by (simp add: copy_ops_def)
next
  case (Cons x plan)
  obtain l f where x: "x = (l, f)" by (cases x)
  let ?ops = "[Mkdir (destinationDir l f), CopyFile (sourceFilePath f) (destinationPath l f)]"
  have ops: "copy_ops (x # plan) = ?ops @ copy_ops plan"
    using x by (simp add: copy_ops_def)
  obtain r0 s0 where step: "copySourceFile l f s = (r0, s0)" by (cases "copySourceFile l f s")
  show ?case
  proof (cases r0)
    case (Inl e)
    from copySourceFile_oplog_take [of l f s] step obtain m where
      m: "oplog s0 = oplog s @ take m ?ops" by auto
    have "take m ?ops = take (min m 2) (?ops @ copy_ops plan)"
      by (cases m) (auto simp: take_Cons')
    with m Inl step x ops have
      "oplog (snd (forEach (\<lambda>(l, f). copySourceFile l f) (x # plan) s))
         = oplog s @ take (min m 2) (copy_ops (x # plan))"
      by simp
    then show ?thesis ..
  next
    case (Inr u)
    from copySourceFile_Inr [of l f s u s0] step Inr have s0: "oplog s0 = oplog s @ ?ops"
      by auto
    from Cons.IH [of s0] obtain n where
      n: "oplog (snd (forEach (\<lambda>(l, f). copySourceFile l f) plan s0)) = oplog s0 @ take n (copy_ops plan)"
      by auto
    with s0 Inr step x ops have
      "oplog (snd (forEach (\<lambda>(l, f). copySourceFile l f) (x # plan) s))
         = oplog s @ take (2 + n) (copy_ops (x # plan))"
      by simp
    then show ?thesis ..
  qed
qed

lemma plan_untouched:
  assumes "list_all (\<lambda>(l, g). fs_key s (destinationPath l g) \<noteq> k) plan"
  shows "files (snd (forEach (\<lambda>(l, f). copySourceFile l f) plan s)) k = files s k"
proof (rule ccontr)
  obtain r s1 where run: "forEach (\<lambda>(l, f). copySourceFile l f) plan s = (r, s1)"
    by (cases "forEach (\<lambda>(l, f). copySourceFile l f) plan s")
  assume "files (snd (forEach (\<lambda>(l, f). copySourceFile l f) plan s)) k \<noteq> files s k"
  with run plan_frame [OF run] obtain l g where "(l, g) \<in> set plan" "k = fs_key s (destinationPath l g)"
    by auto
  with assms show False by (auto simp: list_all_iff)
qed

lemma plan_last_copy:
  assumes run: "forEach (\<lambda>(l, f). copySourceFile l f) (pre @ (l, g) # post) s = (Inr u, s1)"
    and post: "list_all (\<lambda>(l', g'). fs_key s (destinationPath l' g') \<noteq> fs_key s (destinationPath l g)) post"
  shows "files s1 (fs_key s (destinationPath l g))
           = files (snd (forEach (\<lambda>(l, f). copySourceFile l f) pre s)) (fs_key s (sourceFilePath g))"
proof -
  from run obtain u0 s0 u1 s2 where
    a: "forEach (\<lambda>(l, f). copySourceFile l f) pre s = (Inr u0, s0)" and
    b: "copySourceFile l g s0 = (Inr u1, s2)" and
    c: "forEach (\<lambda>(l, f). copySourceFile l f) post s2 = (Inr u, s1)"
    by (auto simp: forEach_append split: prod.splits sum.splits)
  from plan_oplog_Inr [OF a] have cwd0: "cwd s0 = cwd s" by simp
  from copySourceFile_Inr [OF b] obtain t where
    t: "files s0 (fs_key s0 (sourceFilePath g)) = Some t"
       "files s2 = (files s0)(fs_key s0 (destinationPath l g) \<mapsto> t)" "cwd s2 = cwd s0"
    by auto
  have k0: "fs_key s0 p = fs_key s p" for p using cwd0 by (rule fs_key_cwd)
  have k2: "fs_key s2 p = fs_key s p" for p using t(3) cwd0 by (simp add: fs_key_def)
  from post have "list_all (\<lambda>(l', g'). fs_key s2 (destinationPath l' g') \<noteq> fs_key s (destinationPath l g)) post"
    by (simp add: k2)
  from plan_untouched [OF this] c have "files s1 (fs_key s (destinationPath l g)) = files s2 (fs_key s (destinationPath l g))"
    by simp
  with t a k0 show ?thesis by simp
qed

lemma alias_files_eq: "alias_files = [alias_old, alias_doc, alias_blog]"
  by (simp add: alias_files_def alias_old_def alias_doc_def alias_blog_def)

section \<open>The orchestrator\<close>

text \<open>
  C1, as the spec states it, fails: on the example site, with a token and a server that
  answers the plan, \<open>executeTranslation\<close> returns normally after the plan request, which
  is the only request it has made, and the file system is as it was; no job has been
  created and nothing has been written.
\<close>

theorem executeTranslation_stops_after_plan:
  "fst (executeTranslation (\<lambda>t. t) ''https://api.test'' site_config site_fs (answering plan_answer))
     = Inr ()
   \<and> map req_url (calls (snd (snd (executeTranslation (\<lambda>t. t) ''https://api.test'' site_config
          site_fs (answering plan_answer)))))
     = [''https://api.test/translation-jobs/generate-plan-from-entire-files'']
   \<and> fst (snd (executeTranslation (\<lambda>t. t) ''https://api.test'' site_config site_fs
          (answering plan_answer))) = site_fs
   \<and> oplog site_fs = []
   \<and> files site_fs (fs_key site_fs ''out/translations.json'') = None"
proof -
  have run: "executeTranslation (\<lambda>t. t) ''https://api.test'' site_config site_fs (answering plan_answer)
      = (Inr (), site_fs,
         (answering plan_answer)\<lparr>calls :=
            [post_request ''https://api.test'' ''tok''
               ''/translation-jobs/generate-plan-from-entire-files''
               (Some (translationJobPlanPostData site_config
                  [\<lparr>md_sourceFilePath = ''docs/a.md'', fileHash = js ''Hello''\<rparr>,
                   \<lparr>md_sourceFilePath = ''/site/docs/b.md'', fileHash = js ''World''\<rparr>]))
               None]\<rparr>)"
    unfolding executeTranslation_def site_files_metadata
    by (simp add: authenticatedPost_def fetchWithTimeout_def client_token_def timeout_def
        fetchResponse_def config_apiToken_def answering_def ok_response_def site_config_def
        Let_def)
  have fs0: "oplog site_fs = [] \<and> files site_fs (fs_key site_fs ''out/translations.json'') = None"
    by (simp add: site_fs_def fs_eval path_eval)
  show ?thesis
    unfolding run using fs0 by (simp add: post_request_def)
qed

text \<open>
  C1, amended. \<open>executeTranslation\<close> ends after the plan submission: it leaves the file
  system as it was and makes at most one request, the plan request. The step that
  persists the translations is \<open>pullTranslations\<close>: whenever it returns normally, a token
  is configured, it has made exactly one request through the client, the transport has
  answered it in time with a JSON body whose \<^verbatim>\<open>translations_object\<close> is defined, the file
  \<^verbatim>\<open>translations.json\<close> under the resolved save path holds that object as
  \<^verbatim>\<open>JSON.stringify(_, null, 2)\<close> prints it, and the save directory exists if it did not
  before.
\<close>

theorem executeTranslation_plan_only:
  "fst (snd (executeTranslation h baseURL blendinConfig s n)) = s
   \<and> (\<exists>reqs. calls (snd (snd (executeTranslation h baseURL blendinConfig s n))) = calls n @ reqs
          \<and> length reqs \<le> 1
          \<and> list_all (\<lambda>r. req_url r = baseURL @ ''/translation-jobs/generate-plan-from-entire-files'') reqs)
   \<and> (pullTranslations apiUrl baseURL c configDir blendinConfig s n = (Inr (), s1, n1) \<longrightarrow>
        client_token c \<noteq> []
        \<and> calls n1 = calls n @ [get_request baseURL (client_token c)
              (apiUrl @ ''/projects/'' @ String (config_projectId blendinConfig)
                 @ ''/translations-object'') None]
        \<and> (\<exists>t res d obj.
              transport n (length (calls n)) (get_request baseURL (client_token c)
                (apiUrl @ ''/projects/'' @ String (config_projectId blendinConfig)
                   @ ''/translations-object'') None) = Responds t res
              \<and> t < 30000 \<and> resp_json res = Inr d
              \<and> property d ''translations_object'' = Some obj
              \<and> JSON_stringify_pretty (Some obj) = Some (serialize 0 obj)
              \<and> files s1 (fs_key s (path_join
                    [path_resolve (cwd s) [configDir, config_translationsSavePath blendinConfig],
                     ''translations.json'']))
                   = Some (js (serialize 0 obj)))
        \<and> (\<not> existsSync (path_resolve (cwd s) [configDir, config_translationsSavePath blendinConfig]) s
            \<longrightarrow> fs_key s (path_resolve (cwd s) [configDir, config_translationsSavePath blendinConfig])
                  \<in> dirs s1))"
proof (intro conjI impI)
  assume "pullTranslations apiUrl baseURL c configDir blendinConfig s n = (Inr (), s1, n1)"
  from pullTranslations_Inr [OF this]
  have p: "client_token c \<noteq> [] \<and> calls n1 = calls n @ [get_request baseURL (client_token c)
              (apiUrl @ ''/projects/'' @ String (config_projectId blendinConfig)
                 @ ''/translations-object'') None]
       \<and> (\<exists>t res d obj. transport n (length (calls n)) (get_request baseURL (client_token c)
                (apiUrl @ ''/projects/'' @ String (config_projectId blendinConfig)
                   @ ''/translations-object'') None) = Responds t res \<and> t < 30000
              \<and> resp_json res = Inr d \<and> property d ''translations_object'' = Some obj
              \<and> files s1 (fs_key s (path_join
                    [path_resolve (cwd s) [configDir, config_translationsSavePath blendinConfig],
                     ''translations.json'']))
                   = Some (js (serialize 0 obj)))
       \<and> (\<not> existsSync (path_resolve (cwd s) [configDir, config_translationsSavePath blendinConfig]) s
            \<longrightarrow> fs_key s (path_resolve (cwd s) [configDir, config_translationsSavePath blendinConfig])
                  \<in> dirs s1)" .
  from p show "client_token c \<noteq> []" by simp
  from p show "calls n1 = calls n @ [get_request baseURL (client_token c)
              (apiUrl @ ''/projects/'' @ String (config_projectId blendinConfig)
                 @ ''/translations-object'') None]" by simp
  from p show "\<exists>t res d obj.
              transport n (length (calls n)) (get_request baseURL (client_token c)
                (apiUrl @ ''/projects/'' @ String (config_projectId blendinConfig)
                   @ ''/translations-object'') None) = Responds t res
              \<and> t < 30000 \<and> resp_json res = Inr d
              \<and> property d ''translations_object'' = Some obj
              \<and> JSON_stringify_pretty (Some obj) = Some (serialize 0 obj)
              \<and> files s1 (fs_key s (path_join
                    [path_resolve (cwd s) [configDir, config_translationsSavePath blendinConfig],
                     ''translations.json'']))
                   = Some (js (serialize 0 obj))"
    by (simp add: JSON_stringify_pretty_def)
  from p show "fs_key s (path_resolve (cwd s) [configDir, config_translationsSavePath blendinConfig])
                  \<in> dirs s1"
    if "\<not> existsSync (path_resolve (cwd s) [configDir, config_translationsSavePath blendinConfig]) s"
    using that by simp
qed (use executeTranslation_effects [of h baseURL blendinConfig s n] in blast)+

theorem executeTranslation_plan_only_witness:
  "fst (pullTranslations ''https://api.test'' ''https://api.test'' (Some (Some ''tok'')) ''/site''
          site_config site_fs (answering translations_answer :: TranslationJobPlanPostData net)) = Inr ()
   \<and> client_token (Some (Some ''tok'')) \<noteq> []
   \<and> \<not> existsSync ''/site/out'' site_fs
   \<and> ''/site/out'' \<in> dirs (fst (snd (pullTranslations ''https://api.test'' ''https://api.test''
          (Some (Some ''tok'')) ''/site'' site_config site_fs (answering translations_answer :: TranslationJobPlanPostData net))))
   \<and> files (fst (snd (pullTranslations ''https://api.test'' ''https://api.test''
          (Some (Some ''tok'')) ''/site'' site_config site_fs (answering translations_answer :: TranslationJobPlanPostData net))))
        ''/site/out/translations.json'' = Some (js translations_text)
   \<and> JSON_stringify_pretty (property translations_answer ''translations_object'')
        = Some translations_text"
proof -
  let ?P = "pullTranslations ''https://api.test'' ''https://api.test'' (Some (Some ''tok'')) ''/site''
          site_config site_fs (answering translations_answer :: TranslationJobPlanPostData net)"
  have txt0: "JSON_stringify_pretty (property translations_answer ''translations_object'')
        = Some translations_text"
    by (simp add: translations_answer_def translations_text_def json_eval)
  have sp: "path_resolve (cwd site_fs) [''/site'', config_translationsSavePath site_config] = ''/site/out''"
    by (simp add: site_fs_def site_config_def config_translationsSavePath_def path_eval)
  have absent: "\<not> existsSync ''/site/out'' site_fs"
    by (simp add: site_fs_def fs_eval path_eval)
  have g: "authenticatedGet ''https://api.test'' (Some (Some ''tok''))
             (''https://api.test'' @ ''/projects/'' @ String (config_projectId site_config)
                @ ''/translations-object'') None (answering translations_answer :: TranslationJobPlanPostData net)
           = (Inr \<lparr>data = translations_answer, status = 200, statusText = ''OK'', headers = Map.empty\<rparr>,
              (answering translations_answer)\<lparr>calls :=
                 [get_request ''https://api.test'' ''tok''
                    (''https://api.test'' @ ''/projects/'' @ String (config_projectId site_config)
                       @ ''/translations-object'') None]\<rparr>)"
    by (simp add: authenticatedGet_def fetchWithTimeout_def client_token_def fetchResponse_def
        timeout_def answering_def ok_response_def Let_def)
  have gp: "get_property translations_answer ''translations_object''
              = Inr (property translations_answer ''translations_object'')"
    by (simp add: get_property_def translations_answer_def)
  have mk: "mkdirSync ''/site/out'' site_fs
      = (Inr (), site_fs\<lparr>oplog := [Mkdir ''/site/out''], dirs := {''/'', ''/site'', ''/site/docs'', ''/site/out''}\<rparr>)"
    by (auto simp: site_fs_def mkdirSync_def fs_key_def path_eval Let_def)
  have wr: "writeFileSync (path_join [''/site/out'', ''translations.json'']) (js translations_text)
        (site_fs\<lparr>oplog := [Mkdir ''/site/out''], dirs := {''/'', ''/site'', ''/site/docs'', ''/site/out''}\<rparr>)
      = (Inr (), site_fs\<lparr>oplog := [Mkdir ''/site/out'', WriteFile ''/site/out/translations.json'' (js translations_text)],
            dirs := {''/'', ''/site'', ''/site/docs'', ''/site/out''},
            files := (files site_fs)(''/site/out/translations.json'' \<mapsto> js translations_text)\<rparr>)"
    by (simp add: site_fs_def writeFileSync_def fs_key_def path_eval Let_def)
  have run: "?P = (Inr (),
       site_fs\<lparr>oplog := [Mkdir ''/site/out'', WriteFile ''/site/out/translations.json'' (js translations_text)],
            dirs := {''/'', ''/site'', ''/site/docs'', ''/site/out''},
            files := (files site_fs)(''/site/out/translations.json'' \<mapsto> js translations_text)\<rparr>,
       (answering translations_answer)\<lparr>calls :=
                 [get_request ''https://api.test'' ''tok''
                    (''https://api.test'' @ ''/projects/'' @ String (config_projectId site_config)
                       @ ''/translations-object'') None]\<rparr>)"
    unfolding pullTranslations_def Let_def sp g
    by (simp add: gp absent mk txt0 wr)
  from executeTranslation_plan_only [where apiUrl = "''https://api.test''"
      and baseURL = "''https://api.test''" and c = "Some (Some ''tok'')" and configDir = "''/site''"
      and blendinConfig = site_config and s = site_fs and n = "answering translations_answer :: TranslationJobPlanPostData net",
      THEN conjunct2, THEN conjunct2, THEN mp, OF run]
  have tok: "client_token (Some (Some ''tok'')) \<noteq> []"
    by (rule conjunct1)
  from run tok absent txt0 show ?thesis
    by simp
qed

section \<open>The plan request\<close>

text \<open>
  C2. When every configured source file can be read, the plan \<open>executeTranslation\<close>
  builds has one \<open>files_metadata\<close> entry per configured path, in the configured order,
  each with the hash of the trimmed content of its file; under a hash without collisions
  two files whose trimmed contents differ get different \<open>fileHash\<close> values; the fields
  \<open>project_uuid\<close>, \<open>source_locale_iso\<close> and \<open>target_locale_isos\<close> are those of the
  configuration; and with a token configured that plan is the body of the one request
  made, a POST to the base URL followed by
  \<^verbatim>\<open>/translation-jobs/generate-plan-from-entire-files\<close>.
\<close>

theorem plan_request_body:
  assumes "getFilesMetadata h (config_sourceFilePaths blendinConfig) s = Inr ms"
  shows "map md_sourceFilePath ms = config_sourceFilePaths blendinConfig
   \<and> length ms = length (config_sourceFilePaths blendinConfig)
   \<and> (\<forall>i < length ms. \<exists>c. readFileSync (config_sourceFilePaths blendinConfig ! i) s = Inr c
          \<and> fileHash (ms ! i) = h (trim c))
   \<and> (collision_free h \<longrightarrow>
        (\<forall>i < length ms. \<forall>j < length ms. \<forall>ci cj.
           readFileSync (config_sourceFilePaths blendinConfig ! i) s = Inr ci
           \<and> readFileSync (config_sourceFilePaths blendinConfig ! j) s = Inr cj
           \<and> trim ci \<noteq> trim cj
           \<longrightarrow> fileHash (ms ! i) \<noteq> fileHash (ms ! j)))
   \<and> files_metadata (translationJobPlanPostData blendinConfig ms) = ms
   \<and> project_uuid (translationJobPlanPostData blendinConfig ms)
        = config_projectId blendinConfig
   \<and> source_locale_iso (translationJobPlanPostData blendinConfig ms)
        = (case locales blendinConfig of None \<Rightarrow> None | Some l \<Rightarrow> sourceLocale l)
   \<and> target_locale_isos (translationJobPlanPostData blendinConfig ms)
        = (case locales blendinConfig of None \<Rightarrow> None | Some l \<Rightarrow> targetLocales l)
   \<and> (\<forall>t. config_apiToken blendinConfig = Some t \<and> t \<noteq> [] \<longrightarrow>
        calls (snd (snd (executeTranslation h baseURL blendinConfig s n)))
          = calls n @ [\<lparr>req_url = baseURL @ ''/translation-jobs/generate-plan-from-entire-files'',
                        req_method = Some ''POST'',
                        req_headers = [''Content-Type'' \<mapsto> ''application/json'', ''X-API-Token'' \<mapsto> t],
                        req_body = Some (Stringified (translationJobPlanPostData blendinConfig ms))\<rparr>])"
proof -
  let ?ps = "config_sourceFilePaths blendinConfig"
  from getFilesMetadata_Inr [OF assms] have
    len: "length ms = length ?ps" and
    each: "\<forall>i < length ?ps. \<exists>c. readFileSync (?ps ! i) s = Inr c
            \<and> ms ! i = \<lparr>md_sourceFilePath = ?ps ! i, fileHash = h (trim c)\<rparr>"
    by auto
  have paths: "map md_sourceFilePath ms = ?ps"
  proof (rule nth_equalityI)
    show "length (map md_sourceFilePath ms) = length ?ps" using len by simp
  next
    fix i assume "i < length (map md_sourceFilePath ms)"
    then show "map md_sourceFilePath ms ! i = ?ps ! i" using len each by auto
  qed
  have hashes: "\<forall>i < length ms. \<exists>c. readFileSync (?ps ! i) s = Inr c \<and> fileHash (ms ! i) = h (trim c)"
    using len each by auto
  have distinct_hashes: "collision_free h \<longrightarrow>
        (\<forall>i < length ms. \<forall>j < length ms. \<forall>ci cj.
           readFileSync (?ps ! i) s = Inr ci \<and> readFileSync (?ps ! j) s = Inr cj
           \<and> trim ci \<noteq> trim cj
           \<longrightarrow> fileHash (ms ! i) \<noteq> fileHash (ms ! j))"
  proof (intro impI allI)
    fix i j ci cj
    assume cf: "collision_free h" and i: "i < length ms" and j: "j < length ms"
      and r: "readFileSync (?ps ! i) s = Inr ci \<and> readFileSync (?ps ! j) s = Inr cj \<and> trim ci \<noteq> trim cj"
    from hashes i r have hi: "fileHash (ms ! i) = h (trim ci)" by auto
    from hashes j r have hj: "fileHash (ms ! j) = h (trim cj)" by auto
    from cf r have "h (trim ci) \<noteq> h (trim cj)"
      by (auto simp: collision_free_def dest: injD)
    with hi hj show "fileHash (ms ! i) \<noteq> fileHash (ms ! j)" by simp
  qed
  have fields: "files_metadata (translationJobPlanPostData blendinConfig ms) = ms
   \<and> project_uuid (translationJobPlanPostData blendinConfig ms)
        = config_projectId blendinConfig
   \<and> source_locale_iso (translationJobPlanPostData blendinConfig ms)
        = (case locales blendinConfig of None \<Rightarrow> None | Some l \<Rightarrow> sourceLocale l)
   \<and> target_locale_isos (translationJobPlanPostData blendinConfig ms)
        = (case locales blendinConfig of None \<Rightarrow> None | Some l \<Rightarrow> targetLocales l)"
    by (simp add: translationJobPlanPostData_def)
  have sent: "\<forall>t. config_apiToken blendinConfig = Some t \<and> t \<noteq> [] \<longrightarrow>
        calls (snd (snd (executeTranslation h baseURL blendinConfig s n)))
          = calls n @ [\<lparr>req_url = baseURL @ ''/translation-jobs/generate-plan-from-entire-files'',
                        req_method = Some ''POST'',
                        req_headers = [''Content-Type'' \<mapsto> ''application/json'', ''X-API-Token'' \<mapsto> t],
                        req_body = Some (Stringified (translationJobPlanPostData blendinConfig ms))\<rparr>]"
    using assms
    by (auto simp: executeTranslation_def authenticatedPost_def fetchWithTimeout_def
        client_token_def post_request_def config_headers_def Let_def split: sum.splits prod.splits)
  from paths len hashes distinct_hashes fields sent show ?thesis by blast
qed

theorem plan_request_body_witness:
  "getFilesMetadata (\<lambda>t. t) (config_sourceFilePaths site_config) site_fs =
       Inr [\<lparr>md_sourceFilePath = ''docs/a.md'', fileHash = js ''Hello''\<rparr>,
            \<lparr>md_sourceFilePath = ''/site/docs/b.md'', fileHash = js ''World''\<rparr>]
   \<and> collision_free (\<lambda>t. t)
   \<and> js ''Hello'' \<noteq> js ''World''
   \<and> map md_sourceFilePath
        [\<lparr>md_sourceFilePath = ''docs/a.md'', fileHash = js ''Hello''\<rparr>,
         \<lparr>md_sourceFilePath = ''/site/docs/b.md'', fileHash = js ''World''\<rparr>]
       = config_sourceFilePaths site_config
   \<and> map req_body (calls (snd (snd (executeTranslation (\<lambda>t. t) ''https://api.test'' site_config
          site_fs (answering JNull))))) =
       [Some (Stringified
          \<lparr>project_uuid = Some ''proj-1'', source_locale_iso = Some ''en-US'',
           target_locale_isos = Some [Some ''fr-FR'', Some ''de-DE''],
           files_metadata =
             [\<lparr>md_sourceFilePath = ''docs/a.md'', fileHash = js ''Hello''\<rparr>,
              \<lparr>md_sourceFilePath = ''/site/docs/b.md'', fileHash = js ''World''\<rparr>]\<rparr>)]"
proof -
  have h: "getFilesMetadata (\<lambda>t. t) (config_sourceFilePaths site_config) site_fs =
       Inr [\<lparr>md_sourceFilePath = ''docs/a.md'', fileHash = js ''Hello''\<rparr>,
            \<lparr>md_sourceFilePath = ''/site/docs/b.md'', fileHash = js ''World''\<rparr>]"
    by (simp add: example_eval config_sourceFilePaths_def fs_eval path_eval trim_def js_def
        isWhiteSpace_def)
  have paths: "map md_sourceFilePath
        [\<lparr>md_sourceFilePath = ''docs/a.md'', fileHash = js ''Hello''\<rparr>,
         \<lparr>md_sourceFilePath = ''/site/docs/b.md'', fileHash = js ''World''\<rparr>]
       = config_sourceFilePaths site_config"
    using plan_request_body [OF h] by (rule conjunct1)
  have cf: "collision_free (\<lambda>t. t)" by (simp add: collision_free_def)
  have ne: "js ''Hello'' \<noteq> js ''World''" by (simp add: js_def)
  have body: "map req_body (calls (snd (snd (executeTranslation (\<lambda>t. t) ''https://api.test'' site_config
          site_fs (answering JNull))))) =
       [Some (Stringified
          \<lparr>project_uuid = Some ''proj-1'', source_locale_iso = Some ''en-US'',
           target_locale_isos = Some [Some ''fr-FR'', Some ''de-DE''],
           files_metadata =
             [\<lparr>md_sourceFilePath = ''docs/a.md'', fileHash = js ''Hello''\<rparr>,
              \<lparr>md_sourceFilePath = ''/site/docs/b.md'', fileHash = js ''World''\<rparr>]\<rparr>)]"
    unfolding executeTranslation_def h
    by (simp add: authenticatedPost_def fetchWithTimeout_def
        client_token_def post_request_def translationJobPlanPostData_def timeout_def
        fetchResponse_def config_projectId_def config_apiToken_def example_eval Let_def)
  from h cf ne paths body show ?thesis by (intro conjI)
qed

section \<open>The API client without a token\<close>

text \<open>
  C3. When no API token is configured (no configuration, no token in it, or the empty
  string), \<open>authenticatedGet\<close> and \<open>authenticatedPost\<close> resolve to the synthetic response
  with data \<^verbatim>\<open>{}\<close>, status 401 and status text \<^verbatim>\<open>Unauthorized\<close>, for every path, body
  and options, and the network is as it was: the transport is not invoked.
\<close>

theorem no_token_unauthorized:
  assumes "client_token apiClientConfig = []"
  shows "authenticatedGet baseURL apiClientConfig url config n =
           (Inr \<lparr>data = JObj [], status = 401, statusText = ''Unauthorized'', headers = Map.empty\<rparr>, n)
       \<and> authenticatedPost baseURL apiClientConfig url dat config n =
           (Inr \<lparr>data = JObj [], status = 401, statusText = ''Unauthorized'', headers = Map.empty\<rparr>, n)"
  using assms by (simp add: authenticatedGet_def authenticatedPost_def unauthorized_def)

theorem no_token_unauthorized_witness:
  "client_token (Some None) = []
   \<and> authenticatedGet ''https://api.test'' (Some None) ''/ping'' None
        \<lparr>transport = (\<lambda>i r. Hangs), calls = ([] :: unit request list)\<rparr> =
       (Inr \<lparr>data = JObj [], status = 401, statusText = ''Unauthorized'', headers = Map.empty\<rparr>,
        \<lparr>transport = (\<lambda>i r. Hangs), calls = []\<rparr>)
   \<and> calls (snd (authenticatedPost ''https://api.test'' (Some None) ''/ping'' (Some ()) None
        \<lparr>transport = (\<lambda>i r. Hangs), calls = ([] :: unit request list)\<rparr>)) = []"
proof -
  have t: "client_token (Some None) = []" by (simp add: client_token_def)
  show ?thesis
    using t no_token_unauthorized [OF t, of "''https://api.test''" "''/ping''" None
        "\<lparr>transport = (\<lambda>i r. Hangs), calls = ([] :: unit request list)\<rparr>" "Some ()"]
    by simp
qed

section \<open>The poller: completion\<close>



section \<open>The poller: failure\<close>




section \<open>The content fingerprint\<close>

text \<open>
  C6. The fingerprint of a content is the hash of the trimmed content: a content and its
  trimmed form have the same fingerprint, so \<^verbatim>\<open>abc\<close> followed by a line feed has that of
  \<^verbatim>\<open>abc\<close>; two files whose trimmed contents are equal get the same \<open>fileHash\<close> whatever
  their paths and the state of the file system when they are read; and under a hash
  without collisions, contents that differ after trimming have different fingerprints,
  \<^verbatim>\<open>abc\<close> and \<^verbatim>\<open>abd\<close> among them.
\<close>

theorem fingerprint_trimmed:
  "content_hash h (trim s) = content_hash h s
   \<and> content_hash h (js ''abc'' @ [0x0A]) = content_hash h (js ''abc'')
   \<and> (readFileSync p1 s1 = Inr c1 \<and> readFileSync p2 s2 = Inr c2 \<and> trim c1 = trim c2 \<longrightarrow>
        (\<exists>m1 m2. getFilesMetadata h [p1] s1 = Inr [m1] \<and> getFilesMetadata h [p2] s2 = Inr [m2]
           \<and> fileHash m1 = content_hash h c1 \<and> fileHash m2 = fileHash m1))
   \<and> (collision_free h \<longrightarrow>
        (\<forall>a b. trim a \<noteq> trim b \<longrightarrow> content_hash h a \<noteq> content_hash h b)
        \<and> content_hash h (js ''abc'') \<noteq> content_hash h (js ''abd''))"
proof -
  have "trim (js ''abc'' @ [0x0A]) = trim (js ''abc'')"
    by (simp add: trim_def js_def isWhiteSpace_def)
  moreover have "trim (js ''abc'') \<noteq> trim (js ''abd'')"
    by (simp add: trim_def js_def isWhiteSpace_def)
  ultimately show ?thesis
    by (auto simp: content_hash_def trim_idem collision_free_def dest: injD)
qed

theorem fingerprint_trimmed_witness:
  "collision_free (\<lambda>t. t)
   \<and> content_hash (\<lambda>t. t) (js ''abc'') \<noteq> content_hash (\<lambda>t. t) (js ''abd'')
   \<and> content_hash (\<lambda>t. t) (js ''abc'' @ [0x0A]) = content_hash (\<lambda>t. t) (js ''abc'')
   \<and> content_hash (\<lambda>t. t) (js ''abc'' @ [0x0A]) = js ''abc''"
proof -
  have cf: "collision_free (\<lambda>t. t)"
    by (simp add: collision_free_def)
  have th: "content_hash (\<lambda>t. t) (js ''abc'' @ [0x0A]) = content_hash (\<lambda>t. t) (js ''abc'')
     \<and> (collision_free (\<lambda>t. t) \<longrightarrow>
          content_hash (\<lambda>t. t) (js ''abc'') \<noteq> content_hash (\<lambda>t. t) (js ''abd''))"
    using fingerprint_trimmed [of "\<lambda>t. t"] by blast
  have ev: "content_hash (\<lambda>t. t) (js ''abc'' @ [0x0A]) = js ''abc''"
    by (simp add: content_hash_def trim_def js_def isWhiteSpace_def)
  from cf th ev show ?thesis by blast
qed

section \<open>The timeout of a request\<close>

text \<open>
  C7. With a token configured, a request whose transport does not settle within 30000
  milliseconds fails with \<^verbatim>\<open>Error('Request timed out')\<close>, for GET and for POST, and the
  transport has been handed exactly that one request: nothing is retried. A network
  failure of the transport before the timeout is passed on as it is (a TypeError of
  \<^verbatim>\<open>fetch\<close>), and differs from the timeout's error.
\<close>

theorem request_timeout:
  assumes "client_token apiClientConfig \<noteq> []"
  shows "(\<not> settles_within (transport n (length (calls n))
              (get_request baseURL (client_token apiClientConfig) url config)) 30000
          \<longrightarrow> authenticatedGet baseURL apiClientConfig url config n =
                (Inl (Error ''Request timed out''),
                 n\<lparr>calls := calls n @ [get_request baseURL (client_token apiClientConfig) url config]\<rparr>))
       \<and> (\<not> settles_within (transport n (length (calls n))
              (post_request baseURL (client_token apiClientConfig) url dat config)) 30000
          \<longrightarrow> authenticatedPost baseURL apiClientConfig url dat config n =
                (Inl (Error ''Request timed out''),
                 n\<lparr>calls := calls n @ [post_request baseURL (client_token apiClientConfig) url dat config]\<rparr>))
       \<and> (t < 30000 \<and> transport n (length (calls n))
              (get_request baseURL (client_token apiClientConfig) url config) = Fails t (TypeError m)
          \<longrightarrow> authenticatedGet baseURL apiClientConfig url config n =
                (Inl (TypeError m),
                 n\<lparr>calls := calls n @ [get_request baseURL (client_token apiClientConfig) url config]\<rparr>)
              \<and> TypeError m \<noteq> Error ''Request timed out'')"
  using assms
  by (simp add: authenticatedGet_def authenticatedPost_def fetchWithTimeout_def timeout_def timed_late)

theorem request_timeout_witness:
  "client_token (Some (Some ''tok'')) \<noteq> []
   \<and> \<not> settles_within (Responds 30001 \<lparr>resp_status = 200, resp_statusText = ''OK'',
          resp_headers = Map.empty, resp_json = Inr JNull\<rparr>) 30000
   \<and> fst (authenticatedGet ''https://api.test'' (Some (Some ''tok'')) ''/ping'' None
        \<lparr>transport = (\<lambda>i r. Responds 30001 \<lparr>resp_status = 200, resp_statusText = ''OK'',
            resp_headers = Map.empty, resp_json = Inr JNull\<rparr>),
         calls = ([] :: unit request list)\<rparr>) = Inl (Error ''Request timed out'')
   \<and> length (calls (snd (authenticatedGet ''https://api.test'' (Some (Some ''tok'')) ''/ping'' None
        \<lparr>transport = (\<lambda>i r. Responds 30001 \<lparr>resp_status = 200, resp_statusText = ''OK'',
            resp_headers = Map.empty, resp_json = Inr JNull\<rparr>),
         calls = ([] :: unit request list)\<rparr>))) = 1
   \<and> fst (authenticatedPost ''https://api.test'' (Some (Some ''tok'')) ''/ping'' (Some ()) None
        \<lparr>transport = (\<lambda>i r. Hangs), calls = ([] :: unit request list)\<rparr>)
       = Inl (Error ''Request timed out'')
   \<and> fst (authenticatedGet ''https://api.test'' (Some (Some ''tok'')) ''/ping'' None
        \<lparr>transport = (\<lambda>i r. Fails 12 (TypeError ''fetch failed'')),
         calls = ([] :: unit request list)\<rparr>) = Inl (TypeError ''fetch failed'')"
proof -
  have t: "client_token (Some (Some ''tok'')) \<noteq> []" by (simp add: client_token_def)
  show ?thesis
    using t
      request_timeout [OF t, of "\<lparr>transport = (\<lambda>i r. Responds 30001 \<lparr>resp_status = 200,
          resp_statusText = ''OK'', resp_headers = Map.empty, resp_json = Inr JNull\<rparr>),
          calls = ([] :: unit request list)\<rparr>" "''https://api.test''" "''/ping''" None "Some ()" 0 "[]"]
      request_timeout [OF t, of "\<lparr>transport = (\<lambda>i r. Hangs), calls = ([] :: unit request list)\<rparr>"
          "''https://api.test''" "''/ping''" None "Some ()" 0 "[]"]
      request_timeout [OF t, of "\<lparr>transport = (\<lambda>i r. Fails 12 (TypeError ''fetch failed'')),
          calls = ([] :: unit request list)\<rparr>" "''https://api.test''" "''/ping''" None "Some ()" 12 "''fetch failed''"]
    by simp
qed

section \<open>The URL of a status request\<close>

text \<open>
  C8. The client puts its base URL in front of the path it is given, and the poller
  passes it a path that starts with \<^verbatim>\<open>BLENDIN_CLI_API_URL\<close> already: with the
  production endpoint, a token and the job id \<^verbatim>\<open>J\<close>, the status request goes to the base
  URL twice over followed by \<^verbatim>\<open>/translation-jobs/J/translation-progress\<close>, not to the
  base URL followed by that path.
\<close>

theorem poller_url_doubled:
  "map req_url (sent (pollTranslationProgress (BLENDIN_CLI_API_URL None) (BLENDIN_CLI_API_URL None)
       (Some (Some ''tok'')) ''J'')) =
     [''https://blendinapi-production-959c8e72f5be.herokuapp.comhttps://blendinapi-production-959c8e72f5be.herokuapp.com/translation-jobs/J/translation-progress'']
   \<and> map req_url (sent (pollTranslationProgress (BLENDIN_CLI_API_URL None) (BLENDIN_CLI_API_URL None)
       (Some (Some ''tok'')) ''J'')) \<noteq>
     [BLENDIN_CLI_API_URL None @ ''/translation-jobs/J/translation-progress'']"
  by (simp add: pollTranslationProgress_def getAndPrintProgress_def continue_def progress_url_def
      client_token_def get_request_def BLENDIN_CLI_API_URL_def Let_def)

section \<open>The default locale\<close>



section \<open>The destination of a copy\<close>

text \<open>
  C10, as stated, fails where a source file lies at a destination: on the site
  \<open>alias_fs\<close> the first two source files have the same basename and plugin name, the run
  succeeds, and the first source file, which held \<^verbatim>\<open>old\<close>, holds the text of the third
  afterwards, whose copy for the plugin \<^verbatim>\<open>q\<close> goes to that path.
\<close>

theorem source_file_overwritten:
  "fst (copySourceFilesToLocales Some alias_files [Some ''fr''] ''en'' alias_fs) = Inr ()
   \<and> path_basename (sourceFilePath (alias_files ! 0)) = path_basename (sourceFilePath (alias_files ! 1))
   \<and> pluginName (alias_files ! 0) = pluginName (alias_files ! 1)
   \<and> alias_files ! 0 \<noteq> alias_files ! 1
   \<and> files alias_fs (fs_key alias_fs (sourceFilePath (alias_files ! 0))) = Some (js ''old'')
   \<and> files (snd (copySourceFilesToLocales Some alias_files [Some ''fr''] ''en'' alias_fs))
        (fs_key alias_fs (sourceFilePath (alias_files ! 0))) = Some (js ''B'')
   \<and> js ''old'' \<noteq> js ''B''"
  by (simp add: alias_fs_def alias_files_def copy_eval path_eval fs_eval js_def Let_def)

text \<open>
  C10, amended. The destination of a copy is
  \<^verbatim>\<open>path.join(path.join('i18n', lowercased locale, pluginName, 'current'), basename)\<close>,
  which is \<^verbatim>\<open>i18n\<close>, the lowercased locale, the plugin name, \<^verbatim>\<open>current\<close> and the
  basename with a slash between them, when these three are paths that \<^verbatim>\<open>path.join\<close>
  leaves as they are; so two source files with the same basename and plugin name have
  the same destination in every locale. Whatever the files: the run
  makes, in order, the directories and the copies of every source file for every target
  locale other than the default locale's code, all of them when it returns normally and
  the first of them otherwise. When it returns normally, the destination of a copy that
  no later copy goes to holds what the source of that copy held when it was copied,
  which is what the source held at the start when no earlier copy went to that source.
  A file no copy goes to is unchanged. The source files are unchanged provided none of
  them is the destination of one of the copies, and then every file holds what the last
  copy to it wrote, the text its source had at the start.
\<close>

theorem copies_by_basename:
  "(\<forall>l f. destinationPath l f =
            path_join [path_join [''i18n'', toLowerCase (String l), pluginName f, ''current''],
                       path_basename (sourceFilePath f)])
   \<and> (\<forall>l f. clean_path (toLowerCase (String l)) \<and> clean_path (pluginName f)
          \<and> clean_path (path_basename (sourceFilePath f)) \<longrightarrow>
          destinationPath l f =
            ''i18n/'' @ toLowerCase (String l) @ ''/'' @ pluginName f @ ''/current/''
              @ path_basename (sourceFilePath f))
   \<and> (\<forall>l f1 f2. path_basename (sourceFilePath f1) = path_basename (sourceFilePath f2)
          \<and> pluginName f1 = pluginName f2 \<longrightarrow> destinationPath l f1 = destinationPath l f2)
   \<and> (\<exists>n. oplog (snd (copySourceFilesToLocales flags source_files target_locales default_locale s))
          = oplog s @ take n (copy_ops (copy_plan flags source_files target_locales default_locale)))
   \<and> (copySourceFilesToLocales flags source_files target_locales default_locale s = (Inr (), s1) \<longrightarrow>
        oplog s1 = oplog s @ copy_ops (copy_plan flags source_files target_locales default_locale)
        \<and> (\<forall>pre l g post.
              copy_plan flags source_files target_locales default_locale = pre @ (l, g) # post
              \<and> list_all (\<lambda>(l', g'). fs_key s (destinationPath l' g') \<noteq> fs_key s (destinationPath l g)) post
              \<longrightarrow>
              files s1 (fs_key s (destinationPath l g))
                = files (snd (forEach (\<lambda>(l, f). copySourceFile l f) pre s)) (fs_key s (sourceFilePath g))
              \<and> (list_all (\<lambda>(l', g'). fs_key s (destinationPath l' g') \<noteq> fs_key s (sourceFilePath g)) pre
                  \<longrightarrow> files s1 (fs_key s (destinationPath l g)) = files s (fs_key s (sourceFilePath g))))
        \<and> (sources_apart s (copy_plan flags source_files target_locales default_locale) \<longrightarrow>
             (\<forall>k. files s1 k =
                (case last_copy_to s k (copy_plan flags source_files target_locales default_locale) of
                   None \<Rightarrow> files s k
                 | Some (l, g) \<Rightarrow> files s (fs_key s (sourceFilePath g))))))
   \<and> (\<forall>k. list_all (\<lambda>(l, g). fs_key s (destinationPath l g) \<noteq> k)
              (copy_plan flags source_files target_locales default_locale) \<longrightarrow>
          files (snd (copySourceFilesToLocales flags source_files target_locales default_locale s)) k
            = files s k)
   \<and> (sources_apart s (copy_plan flags source_files target_locales default_locale) \<longrightarrow>
        (\<forall>f \<in> set source_files.
           files (snd (copySourceFilesToLocales flags source_files target_locales default_locale s))
                 (fs_key s (sourceFilePath f))
             = files s (fs_key s (sourceFilePath f))))"
proof -
  let ?plan = "copy_plan flags source_files target_locales default_locale"
  let ?X = "copySourceFilesToLocales flags source_files target_locales default_locale s"
  have path: "\<forall>l f. destinationPath l f =
            path_join [path_join [''i18n'', toLowerCase (String l), pluginName f, ''current''],
                       path_basename (sourceFilePath f)]"
    by (simp add: destinationPath_def destinationDir_def)
  have literal: "\<forall>l f. clean_path (toLowerCase (String l)) \<and> clean_path (pluginName f)
          \<and> clean_path (path_basename (sourceFilePath f)) \<longrightarrow>
          destinationPath l f =
            ''i18n/'' @ toLowerCase (String l) @ ''/'' @ pluginName f @ ''/current/''
              @ path_basename (sourceFilePath f)"
    using destinationPath_clean by blast
  have same: "\<forall>l f1 f2. path_basename (sourceFilePath f1) = path_basename (sourceFilePath f2)
          \<and> pluginName f1 = pluginName f2 \<longrightarrow> destinationPath l f1 = destinationPath l f2"
    by (simp add: destinationPath_def destinationDir_def)
  have log: "\<exists>n. oplog (snd ?X) = oplog s @ take n (copy_ops ?plan)"
    using plan_oplog_take [of ?plan s] by (simp add: copy_as_plan)
  have success: "?X = (Inr (), s1) \<longrightarrow>
        oplog s1 = oplog s @ copy_ops ?plan
        \<and> (\<forall>pre l g post.
              ?plan = pre @ (l, g) # post
              \<and> list_all (\<lambda>(l', g'). fs_key s (destinationPath l' g') \<noteq> fs_key s (destinationPath l g)) post
              \<longrightarrow>
              files s1 (fs_key s (destinationPath l g))
                = files (snd (forEach (\<lambda>(l, f). copySourceFile l f) pre s)) (fs_key s (sourceFilePath g))
              \<and> (list_all (\<lambda>(l', g'). fs_key s (destinationPath l' g') \<noteq> fs_key s (sourceFilePath g)) pre
                  \<longrightarrow> files s1 (fs_key s (destinationPath l g)) = files s (fs_key s (sourceFilePath g))))
        \<and> (sources_apart s ?plan \<longrightarrow>
             (\<forall>k. files s1 k =
                (case last_copy_to s k ?plan of
                   None \<Rightarrow> files s k
                 | Some (l, g) \<Rightarrow> files s (fs_key s (sourceFilePath g)))))"
  proof (intro impI conjI allI)
    assume run: "?X = (Inr (), s1)"
    then have frun: "forEach (\<lambda>(l, f). copySourceFile l f) ?plan s = (Inr (), s1)"
      by (simp add: copy_as_plan)
    from plan_oplog_Inr [OF frun] show "oplog s1 = oplog s @ copy_ops ?plan" by simp
    {
      fix pre l g post
      assume d: "?plan = pre @ (l, g) # post
          \<and> list_all (\<lambda>(l', g'). fs_key s (destinationPath l' g') \<noteq> fs_key s (destinationPath l g)) post"
      with frun have "forEach (\<lambda>(l, f). copySourceFile l f) (pre @ (l, g) # post) s = (Inr (), s1)"
        by simp
      from plan_last_copy [OF this] d
      show last: "files s1 (fs_key s (destinationPath l g))
                = files (snd (forEach (\<lambda>(l, f). copySourceFile l f) pre s)) (fs_key s (sourceFilePath g))"
        by simp
      assume "list_all (\<lambda>(l', g'). fs_key s (destinationPath l' g') \<noteq> fs_key s (sourceFilePath g)) pre"
      from plan_untouched [OF this] last
      show "files s1 (fs_key s (destinationPath l g)) = files s (fs_key s (sourceFilePath g))"
        by simp
    }
    fix k
    assume "sources_apart s ?plan"
    from plan_result [OF frun this]
    show "files s1 k =
                (case last_copy_to s k ?plan of
                   None \<Rightarrow> files s k
                 | Some (l, g) \<Rightarrow> files s (fs_key s (sourceFilePath g)))"
      by simp
  qed
  have untouched: "\<forall>k. list_all (\<lambda>(l, g). fs_key s (destinationPath l g) \<noteq> k) ?plan \<longrightarrow>
          files (snd ?X) k = files s k"
    using plan_untouched [of s _ ?plan] by (simp add: copy_as_plan)
  have unchanged: "sources_apart s ?plan \<longrightarrow>
        (\<forall>f \<in> set source_files. files (snd ?X) (fs_key s (sourceFilePath f))
             = files s (fs_key s (sourceFilePath f)))"
  proof (intro impI ballI)
    fix f assume apart: "sources_apart s ?plan" and f: "f \<in> set source_files"
    have "list_all (\<lambda>(l, g). fs_key s (destinationPath l g) \<noteq> fs_key s (sourceFilePath f)) ?plan"
      unfolding list_all_iff
    proof (intro ballI, clarify)
      fix l g assume lg: "(l, g) \<in> set ?plan"
        and eq: "fs_key s (destinationPath l g) = fs_key s (sourceFilePath f)"
      from lg f have lf: "(l, f) \<in> set ?plan" by (auto simp: copy_plan_set)
      from apart lg have "\<forall>x \<in> set ?plan. fs_key s (sourceFilePath (snd x)) \<noteq> fs_key s (destinationPath l g)"
        by (fastforce simp: sources_apart_def list_all_iff)
      with lf eq show False by fastforce
    qed
    with untouched show "files (snd ?X) (fs_key s (sourceFilePath f)) = files s (fs_key s (sourceFilePath f))"
      by blast
  qed
  from path literal same log success untouched unchanged show ?thesis by (intro conjI)
qed

theorem copies_by_basename_witness:
  "fst (copySourceFilesToLocales example_flags [docs_post, blog_post] [Some ''en-US'', Some ''fr-FR'']
          ''en'' blog_fs) = Inr ()
   \<and> sources_apart blog_fs
        (copy_plan example_flags [docs_post, blog_post] [Some ''en-US'', Some ''fr-FR''] ''en'')
   \<and> clean_path (toLowerCase (String (Some ''fr-FR''))) \<and> clean_path (pluginName docs_post)
   \<and> clean_path (path_basename (sourceFilePath docs_post))
   \<and> destinationPath (Some ''fr-FR'') docs_post = ''i18n/fr-fr/p/current/a.md''
   \<and> destinationPath (Some ''fr-FR'') blog_post = ''i18n/fr-fr/p/current/a.md''
   \<and> files (snd (copySourceFilesToLocales example_flags [docs_post, blog_post]
                   [Some ''en-US'', Some ''fr-FR''] ''en'' blog_fs))
        ''/site/i18n/fr-fr/p/current/a.md'' = Some (js ''Blog post'')
   \<and> files (snd (copySourceFilesToLocales example_flags [docs_post, blog_post]
                   [Some ''en-US'', Some ''fr-FR''] ''en'' blog_fs))
        ''/site/docs/a.md'' = Some (js ''Docs page'')
   \<and> fst (copySourceFilesToLocales Some alias_files [Some ''fr''] ''en'' alias_fs) = Inr ()
   \<and> \<not> sources_apart alias_fs (copy_plan Some alias_files [Some ''fr''] ''en'')
   \<and> files (snd (copySourceFilesToLocales Some alias_files [Some ''fr''] ''en'' alias_fs))
        ''/site/i18n/fr/p/current/a.md'' = Some (js ''A'')
   \<and> files (snd (copySourceFilesToLocales Some alias_files [Some ''fr''] ''en'' alias_fs))
        ''/site/docs/a.md'' = Some (js ''A'')"
proof -
  let ?X = "copySourceFilesToLocales example_flags [docs_post, blog_post] [Some ''en-US'', Some ''fr-FR''] ''en'' blog_fs"
  let ?plan = "copy_plan example_flags [docs_post, blog_post] [Some ''en-US'', Some ''fr-FR''] ''en''"
  let ?Y = "copySourceFilesToLocales Some alias_files [Some ''fr''] ''en'' alias_fs"
  let ?copies = "copy_plan Some alias_files [Some ''fr''] ''en''"
  have plan: "?plan = [(Some ''fr-FR'', docs_post), (Some ''fr-FR'', blog_post)]"
    by (simp add: copy_plan_def example_flags_def)
  have clean: "clean_path (toLowerCase (String (Some ''fr-FR''))) \<and> clean_path (pluginName docs_post)
      \<and> clean_path (path_basename (sourceFilePath docs_post))"
    by (simp add: clean_path_def docs_post_def path_eval)
  have same: "path_basename (sourceFilePath docs_post) = path_basename (sourceFilePath blog_post)
      \<and> pluginName docs_post = pluginName blog_post"
    by (simp add: docs_post_def blog_post_def path_eval)
  have keys: "fs_key blog_fs ''i18n/fr-fr/p/current/a.md'' = ''/site/i18n/fr-fr/p/current/a.md''
      \<and> fs_key blog_fs (sourceFilePath docs_post) = ''/site/docs/a.md''
      \<and> fs_key blog_fs (sourceFilePath blog_post) = ''/site/blog/a.md''"
    by (simp add: docs_post_def blog_post_def blog_fs_def fs_key_def path_eval)
  have ok: "fst ?X = Inr ()"
    by (simp add: blog_fs_def docs_post_def blog_post_def example_flags_def copy_eval path_eval
        fs_eval Let_def)
  then have run: "?X = (Inr (), snd ?X)"
    by (metis prod.collapse)
  note th = copies_by_basename [where flags = example_flags and source_files = "[docs_post, blog_post]"
      and target_locales = "[Some ''en-US'', Some ''fr-FR'']" and default_locale = "''en''"
      and s = blog_fs and ?s1.0 = "snd ?X"]
  from th clean have "destinationPath (Some ''fr-FR'') docs_post =
      ''i18n/'' @ toLowerCase (String (Some ''fr-FR'')) @ ''/'' @ pluginName docs_post @ ''/current/''
        @ path_basename (sourceFilePath docs_post)"
    by blast
  then have dest1: "destinationPath (Some ''fr-FR'') docs_post = ''i18n/fr-fr/p/current/a.md''"
    by (simp add: docs_post_def path_eval)
  from th same have "destinationPath (Some ''fr-FR'') docs_post = destinationPath (Some ''fr-FR'') blog_post"
    by blast
  with dest1 have dest2: "destinationPath (Some ''fr-FR'') blog_post = ''i18n/fr-fr/p/current/a.md''"
    by simp
  have apart: "sources_apart blog_fs ?plan"
    unfolding plan by (simp add: sources_apart_def dest1 dest2 keys)
  from th run apart have content: "\<forall>k. files (snd ?X) k =
              (case last_copy_to blog_fs k ?plan of
                 None \<Rightarrow> files blog_fs k
               | Some (l, g) \<Rightarrow> files blog_fs (fs_key blog_fs (sourceFilePath g)))"
    by blast
  have last_writer: "last_copy_to blog_fs ''/site/i18n/fr-fr/p/current/a.md'' ?plan
      = Some (Some ''fr-FR'', blog_post)"
    unfolding plan by (simp add: last_copy_to_def dest1 dest2 keys)
  have written: "files (snd ?X) ''/site/i18n/fr-fr/p/current/a.md'' = Some (js ''Blog post'')"
    using content last_writer keys by (simp add: blog_fs_def)
  from th apart have "\<forall>f \<in> set [docs_post, blog_post]. files (snd ?X) (fs_key blog_fs (sourceFilePath f))
          = files blog_fs (fs_key blog_fs (sourceFilePath f))"
    by blast
  then have "files (snd ?X) (fs_key blog_fs (sourceFilePath docs_post))
          = files blog_fs (fs_key blog_fs (sourceFilePath docs_post))"
    by simp
  then have source: "files (snd ?X) ''/site/docs/a.md'' = Some (js ''Docs page'')"
    using keys by (simp add: blog_fs_def)
  have aplan: "?copies = [(Some ''fr'', alias_old)] @ (Some ''fr'', alias_doc) # [(Some ''fr'', alias_blog)]"
    by (simp add: copy_plan_def alias_files_eq)
  have adest: "destinationPath (Some ''fr'') alias_old = ''i18n/fr/p/current/a.md''
      \<and> destinationPath (Some ''fr'') alias_doc = ''i18n/fr/p/current/a.md''
      \<and> destinationPath (Some ''fr'') alias_blog = ''i18n/fr/q/current/a.md''"
    by (simp add: alias_old_def alias_doc_def alias_blog_def destinationPath_def destinationDir_def
        path_eval)
  have akeys: "fs_key alias_fs ''i18n/fr/p/current/a.md'' = ''/site/i18n/fr/p/current/a.md''
      \<and> fs_key alias_fs ''i18n/fr/q/current/a.md'' = ''/site/i18n/fr/q/current/a.md''
      \<and> fs_key alias_fs (sourceFilePath alias_old) = ''/site/i18n/fr/q/current/a.md''
      \<and> fs_key alias_fs (sourceFilePath alias_doc) = ''/site/docs/a.md''
      \<and> fs_key alias_fs (sourceFilePath alias_blog) = ''/site/blog/a.md''"
    by (simp add: alias_old_def alias_doc_def alias_blog_def alias_fs_def fs_key_def path_eval)
  have not_apart: "\<not> sources_apart alias_fs ?copies"
    unfolding aplan by (simp add: sources_apart_def adest akeys)
  have aok: "fst ?Y = Inr ()"
    by (simp add: alias_fs_def alias_files_def copy_eval path_eval fs_eval js_def Let_def)
  then have arun: "?Y = (Inr (), snd ?Y)"
    by (metis prod.collapse)
  note ath = copies_by_basename [where flags = Some and source_files = alias_files
      and target_locales = "[Some ''fr'']" and default_locale = "''en''"
      and s = alias_fs and ?s1.0 = "snd ?Y"]
  have later: "list_all (\<lambda>(l', g'). fs_key alias_fs (destinationPath l' g')
                  \<noteq> fs_key alias_fs (destinationPath (Some ''fr'') alias_doc))
                [(Some ''fr'', alias_blog)]"
    by (simp add: adest akeys)
  have earlier: "list_all (\<lambda>(l', g'). fs_key alias_fs (destinationPath l' g')
                  \<noteq> fs_key alias_fs (sourceFilePath alias_doc))
                [(Some ''fr'', alias_old)]"
    by (simp add: adest akeys)
  from ath arun aplan later earlier
  have "files (snd ?Y) (fs_key alias_fs (destinationPath (Some ''fr'') alias_doc))
          = files alias_fs (fs_key alias_fs (sourceFilePath alias_doc))"
    by blast
  then have "files (snd ?Y) ''/site/i18n/fr/p/current/a.md'' = files alias_fs ''/site/docs/a.md''"
    by (simp add: adest akeys)
  then have awritten: "files (snd ?Y) ''/site/i18n/fr/p/current/a.md'' = Some (js ''A'')"
    by (simp add: alias_fs_def)
  have "list_all (\<lambda>(l, g). fs_key alias_fs (destinationPath l g) \<noteq> ''/site/docs/a.md'') ?copies"
    unfolding aplan by (simp add: adest akeys)
  with ath have "files (snd ?Y) ''/site/docs/a.md'' = files alias_fs ''/site/docs/a.md''"
    by blast
  then have asource: "files (snd ?Y) ''/site/docs/a.md'' = Some (js ''A'')"
    by (simp add: alias_fs_def)
  from ok apart clean dest1 dest2 written source aok not_apart awritten asource
  show ?thesis by simp
qed

end
